theory Spec2Isabelle
  imports Main "HOL-Library.Word"
begin

section \<open>Blocking TCP transport with a length prefix (tcp_blocking.py)\<close>

text \<open>
  The module offers two endpoint classes, \<open>TCPServer\<close> and \<open>TCPClient\<close>, on top of
  two loops, \<open>send_all\<close> and \<open>recv_all\<close>, that push a whole buffer through a stream
  socket and pull an exact number of bytes out of it. \<open>send_tensor\<close> and
  \<open>recv_tensor\<close> only wrap \<open>send\<close> and \<open>recv\<close> in the serialiser of torch and are left
  out.

  Python values are modelled as follows: \<open>bytes\<close> is a list of 8-bit words, Python's
  \<open>int\<close> is \<open>int\<close>, a length is \<open>nat\<close>, an exception is a value of \<open>error\<close>.
  Every call returns an outcome: \<open>None\<close> when the call blocks for ever, otherwise the
  result or the exception together with the state the call leaves behind (an exception
  does not undo the effects that came before it).
\<close>

subsection \<open>Exceptions and outcomes\<close>

datatype error =
    RuntimeError string  \<comment> \<open>raised by the module itself, with its message\<close>
  | OverflowError        \<comment> \<open>\<open>int.to_bytes\<close>: int too big to convert\<close>
  | ValueError           \<comment> \<open>negative length or buffer size\<close>
  | OSError              \<comment> \<open>the operating system refuses the call (closed or already bound socket)\<close>
  | AttributeError       \<comment> \<open>method call on \<open>None\<close>\<close>

type_synonym byte = "8 word"
type_synonym bytes = "byte list"
type_synonym ('a, 's) outcome = "((error + 'a) \<times> 's) option"

subsection \<open>The connected stream socket (the environment)\<close>

text \<open>
  A connected socket is the program's view of the transport. Its behaviour is not
  decided by the program, so it is given as a script:
  \<^item> \<open>accepts\<close>: for each coming call of \<open>sock.send\<close>, how many bytes the transport is
    ready to take (the call returns the smaller of this and the length of the buffer);
    when the script is used up the transport never takes another byte and the call blocks;
  \<^item> \<open>arriving\<close>: the segments in which the peer's bytes arrive; one call of
    \<open>sock.recv\<close> hands over bytes of the first segment only, at most as many as asked for;
  \<^item> \<open>eof\<close>: whether the peer closes its side after the last segment; if so a further
    \<open>sock.recv\<close> returns the empty buffer, otherwise it blocks for ever;
  \<^item> \<open>reachable\<close>: whether \<open>sock.connect\<close> would succeed.
  The fields \<open>wire\<close>, \<open>send_log\<close> and \<open>recv_log\<close> record what the program did:
  the bytes the transport took, the buffer of every \<open>sock.send\<close> call, and the size
  asked for and the chunk returned by every \<open>sock.recv\<close> call. \<open>connected\<close> holds
  once the connection is established; \<open>closed\<close> is set by \<open>sock.close()\<close>. On a
  socket that is closed or not connected, \<open>sock.send\<close> and \<open>sock.recv\<close> raise
  \<open>OSError\<close>. \<open>sock.recv\<close> checks its argument first and raises \<open>ValueError\<close> on a
  negative buffer size.
\<close>

record socket =
  connected :: bool
  closed :: bool
  reachable :: bool
  accepts :: "nat list"
  wire :: bytes
  send_log :: "bytes list"
  arriving :: "bytes list"
  eof :: bool
  recv_log :: "(int \<times> bytes) list"

definition sock_send :: "socket \<Rightarrow> bytes \<Rightarrow> (nat, socket) outcome" where
  "sock_send s buf =
     (if closed s \<or> \<not> connected s then Some (Inl OSError, s)
      else case accepts s of
             [] \<Rightarrow> None
           | k # ks \<Rightarrow>
               Some (Inr (min k (length buf)),
                     s\<lparr>accepts := ks,
                       wire := wire s @ take (min k (length buf)) buf,
                       send_log := send_log s @ [buf]\<rparr>))"

definition sock_recv :: "socket \<Rightarrow> int \<Rightarrow> (bytes, socket) outcome" where
  "sock_recv s bufsize =
     (if bufsize < 0 then Some (Inl ValueError, s)
      else if closed s \<or> \<not> connected s then Some (Inl OSError, s)
      else case arriving s of
             [] \<Rightarrow>
               (if eof s then Some (Inr [], s\<lparr>recv_log := recv_log s @ [(bufsize, [])]\<rparr>)
                else None)
           | seg # segs \<Rightarrow>
               Some (Inr (take (nat bufsize) seg),
                     s\<lparr>arriving := (if drop (nat bufsize) seg = [] then segs
                                     else drop (nat bufsize) seg # segs),
                       recv_log := recv_log s @ [(bufsize, take (nat bufsize) seg)]\<rparr>))"

text \<open>
  \<open>new_socket\<close> is what \<open>socket.socket(AF_INET, SOCK_STREAM)\<close> returns, a socket that
  is not connected yet; \<open>new_connection\<close> is a connection as \<open>accept\<close> returns it. Both
  take the environment's script.
\<close>

definition new_socket :: "bool \<Rightarrow> nat list \<Rightarrow> bytes list \<Rightarrow> bool \<Rightarrow> socket" where
  "new_socket reach acc segs fin =
     \<lparr>connected = False, closed = False, reachable = reach, accepts = acc, wire = [],
      send_log = [], arriving = segs, eof = fin, recv_log = []\<rparr>"

definition new_connection :: "nat list \<Rightarrow> bytes list \<Rightarrow> bool \<Rightarrow> socket" where
  "new_connection acc segs fin = (new_socket True acc segs fin)\<lparr>connected := True\<rparr>"

definition sock_connect :: "socket \<Rightarrow> error + socket" where
  "sock_connect s =
     (if closed s \<or> connected s \<or> \<not> reachable s then Inl OSError
      else Inr (s\<lparr>connected := True\<rparr>))"

definition sock_close :: "socket \<Rightarrow> socket" where
  "sock_close s = s\<lparr>closed := True\<rparr>"

subsection \<open>send_all and recv_all\<close>

text \<open>
  \<^verbatim>\<open>
  def send_all(sock, data):
      total_sent = 0
      length = len(data)
      while total_sent < length:
          sent = sock.send(data[total_sent:])
          if sent == 0:
              raise RuntimeError("Socket connection broken during send")
          total_sent += sent
  \<close>
\<close>

function send_all_loop :: "socket \<Rightarrow> bytes \<Rightarrow> nat \<Rightarrow> (unit, socket) outcome" where
  "send_all_loop s data total_sent =
     (if total_sent < length data then
        (case sock_send s (drop total_sent data) of
           None \<Rightarrow> None
         | Some (Inl e, s') \<Rightarrow> Some (Inl e, s')
         | Some (Inr sent, s') \<Rightarrow>
             if sent = 0 then Some (Inl (RuntimeError ''Socket connection broken during send''), s')
             else send_all_loop s' data (total_sent + sent))
      else Some (Inr (), s))"
  by pat_completeness auto
termination
  by (relation "measure (\<lambda>(s, data, total_sent). length data - total_sent)") auto

definition send_all :: "socket \<Rightarrow> bytes \<Rightarrow> (unit, socket) outcome" where
  "send_all s data = send_all_loop s data 0"

text \<open>
  \<^verbatim>\<open>
  def recv_all(sock, size):
      chunks = []
      bytes_recd = 0
      while bytes_recd < size:
          chunk = sock.recv(min(size - bytes_recd, 2048))
          if not chunk:
              raise RuntimeError("Socket connection broken during recv")
          chunks.append(chunk)
          bytes_recd += len(chunk)
      return b"".join(chunks)
  \<close>
  The parameter \<open>size\<close> is written \<open>size_n\<close> (\<open>size\<close> is a constant of HOL).
\<close>

function recv_all_loop :: "socket \<Rightarrow> int \<Rightarrow> bytes list \<Rightarrow> int \<Rightarrow> (bytes, socket) outcome" where
  "recv_all_loop s size_n chunks bytes_recd =
     (if bytes_recd < size_n then
        (case sock_recv s (min (size_n - bytes_recd) 2048) of
           None \<Rightarrow> None
         | Some (Inl e, s') \<Rightarrow> Some (Inl e, s')
         | Some (Inr chunk, s') \<Rightarrow>
             if chunk = [] then Some (Inl (RuntimeError ''Socket connection broken during recv''), s')
             else recv_all_loop s' size_n (chunks @ [chunk]) (bytes_recd + int (length chunk)))
      else Some (Inr (concat chunks), s))"
  by pat_completeness auto
termination
  by (relation "measure (\<lambda>(s, size_n, chunks, bytes_recd). nat (size_n - bytes_recd))") auto

definition recv_all :: "socket \<Rightarrow> int \<Rightarrow> (bytes, socket) outcome" where
  "recv_all s size_n = recv_all_loop s size_n [] 0"

text \<open>
  The server calls both loops on \<open>self.conn\<close>, which is \<open>None\<close> until \<open>register\<close> has
  accepted a connection. On \<open>None\<close> the first pass through the loop body raises
  \<open>AttributeError\<close> (there is no \<open>send\<close> or \<open>recv\<close> to call); when the loop body is
  never entered nothing is raised.
\<close>

definition send_all_conn :: "socket option \<Rightarrow> bytes \<Rightarrow> (unit, socket option) outcome" where
  "send_all_conn c data =
     (case c of
        None \<Rightarrow> (if 0 < length data then Some (Inl AttributeError, None) else Some (Inr (), None))
      | Some s \<Rightarrow> map_option (\<lambda>(r, s'). (r, Some s')) (send_all s data))"

definition recv_all_conn :: "socket option \<Rightarrow> int \<Rightarrow> (bytes, socket option) outcome" where
  "recv_all_conn c size_n =
     (case c of
        None \<Rightarrow> (if 0 < size_n then Some (Inl AttributeError, None) else Some (Inr [], None))
      | Some s \<Rightarrow> map_option (\<lambda>(r, s'). (r, Some s')) (recv_all s size_n))"

subsection \<open>The length prefix: int.to_bytes and int.from_bytes, big-endian\<close>

text \<open>
  \<open>be_bytes k n\<close> is the \<open>k\<close> low-order base-256 digits of \<open>n\<close>, most significant first.
  \<open>n.to_bytes(length, 'big')\<close> raises \<open>ValueError\<close> for a negative length and
  \<open>OverflowError\<close> when \<open>n\<close> needs more than \<open>length\<close> bytes; here \<open>n\<close> is a length,
  never negative. \<open>int.from_bytes(b, 'big')\<close> reads the digits back.

  The model follows \<open>int.to_bytes\<close> for the lengths the protocol uses (a prefix of 1
  to 8 bytes) and for every length a machine can allocate. It does not follow it
  beyond: for a length of \<open>2 ^ 63\<close> or more \<open>int.to_bytes\<close> raises \<open>OverflowError\<close>
  whatever \<open>n\<close> is, and below that \<open>MemoryError\<close> when the buffer cannot be
  allocated. A property that depends on the result for such a length is stated for
  the widths 1 to 8 only.
\<close>

fun be_bytes :: "nat \<Rightarrow> nat \<Rightarrow> bytes" where
  "be_bytes 0 n = []"
| "be_bytes (Suc k) n = be_bytes k (n div 256) @ [of_nat (n mod 256)]"

definition to_bytes :: "nat \<Rightarrow> int \<Rightarrow> error + bytes" where
  "to_bytes n len =
     (if len < 0 then Inl ValueError
      else if 256 ^ nat len \<le> n then Inl OverflowError
      else Inr (be_bytes (nat len) n))"

definition from_bytes :: "bytes \<Rightarrow> nat" where
  "from_bytes bs = foldl (\<lambda>acc b. acc * 256 + unat b) 0 bs"

subsection \<open>The listening socket (the environment)\<close>

text \<open>
  The listening socket of the server. \<open>addr_free\<close> says whether the address can be bound.
  \<open>queue\<close> is a script of the environment, like the arrival script of a connection: it
  holds, in the order in which they connect, the connections of the peers that \<open>accept\<close>
  has not handed out; \<open>accept\<close> takes the first one and blocks for ever when no peer
  connects. \<open>handed_out\<close> counts the connections \<open>accept\<close> has returned. The operating
  system refuses to bind a socket twice and to accept on a socket that does not listen;
  every operation on a closed socket is refused. A connection comes with the address of
  its peer.
\<close>

type_synonym address = "string \<times> int"

record listener =
  l_closed :: bool
  l_bound :: bool
  l_listening :: "int option"
  addr_free :: bool
  queue :: "(socket \<times> address) list"
  handed_out :: nat

definition new_listener :: "bool \<Rightarrow> (socket \<times> address) list \<Rightarrow> listener" where
  "new_listener free peers =
     \<lparr>l_closed = False, l_bound = False, l_listening = None, addr_free = free,
      queue = peers, handed_out = 0\<rparr>"

definition sock_bind :: "listener \<Rightarrow> address \<Rightarrow> error + listener" where
  "sock_bind l a =
     (if l_closed l \<or> l_bound l \<or> \<not> addr_free l then Inl OSError
      else Inr (l\<lparr>l_bound := True\<rparr>))"

definition sock_listen :: "listener \<Rightarrow> int \<Rightarrow> error + listener" where
  "sock_listen l n =
     (if l_closed l then Inl OSError else Inr (l\<lparr>l_listening := Some n\<rparr>))"

definition sock_accept :: "listener \<Rightarrow> (socket \<times> address, listener) outcome" where
  "sock_accept l =
     (if l_closed l \<or> l_listening l = None then Some (Inl OSError, l)
      else case queue l of
             [] \<Rightarrow> None
           | p # ps \<Rightarrow> Some (Inr p, l\<lparr>queue := ps, handed_out := Suc (handed_out l)\<rparr>))"

definition listener_close :: "listener \<Rightarrow> listener" where
  "listener_close l = l\<lparr>l_closed := True\<rparr>"

text \<open>
  A further peer that tries to connect is queued while the socket listens and the queue
  has room for it, and is refused otherwise.
\<close>

definition peer_connects :: "socket \<times> address \<Rightarrow> listener \<Rightarrow> listener" where
  "peer_connects p l =
     (case l_listening l of
        None \<Rightarrow> l
      | Some n \<Rightarrow>
          if \<not> l_closed l \<and> int (length (queue l)) \<le> n then l\<lparr>queue := queue l @ [p]\<rparr>
          else l)"

subsection \<open>TCPServer\<close>

record TCPServer =
  host :: string
  port :: int
  backlog :: int
  prefix_size :: int
  sock :: listener
  conn :: "socket option"
  addr :: "address option"

text \<open>
  \<^verbatim>\<open>
  def __init__(self, host, port, backlog=4, prefix_size=1):
  \<close>
  An argument left out is \<open>None\<close> here. The socket the constructor creates is given as
  a parameter.
\<close>

definition TCPServer_init ::
    "string \<Rightarrow> int \<Rightarrow> int option \<Rightarrow> int option \<Rightarrow> listener \<Rightarrow> TCPServer" where
  "TCPServer_init h p backlog_arg prefix_size_arg new_sock =
     \<lparr>host = h, port = p,
      backlog = (case backlog_arg of None \<Rightarrow> 4 | Some b \<Rightarrow> b),
      prefix_size = (case prefix_size_arg of None \<Rightarrow> 1 | Some w \<Rightarrow> w),
      sock = new_sock, conn = None, addr = None\<rparr>"

text \<open>
  \<^verbatim>\<open>
  def register(self):
      self.sock.bind((self.host, self.port))
      self.sock.listen(self.backlog)
      self.conn, self.addr = self.sock.accept()
  \<close>
\<close>

definition TCPServer_register :: "TCPServer \<Rightarrow> (unit, TCPServer) outcome" where
  "TCPServer_register srv =
     (case sock_bind (sock srv) (host srv, port srv) of
        Inl e \<Rightarrow> Some (Inl e, srv)
      | Inr l1 \<Rightarrow>
          (case sock_listen l1 (backlog srv) of
             Inl e \<Rightarrow> Some (Inl e, srv\<lparr>sock := l1\<rparr>)
           | Inr l2 \<Rightarrow>
               (case sock_accept l2 of
                  None \<Rightarrow> None
                | Some (Inl e, l3) \<Rightarrow> Some (Inl e, srv\<lparr>sock := l3\<rparr>)
                | Some (Inr (c, a), l3) \<Rightarrow>
                    Some (Inr (), srv\<lparr>sock := l3, conn := Some c, addr := Some a\<rparr>))))"

text \<open>
  \<^verbatim>\<open>
  def send(self, data):
      prefix = len(data).to_bytes(self.prefix_size, 'big')
      send_all(self.conn, prefix + data)

  def recv(self):
      raw_len = recv_all(self.conn, self.prefix_size)
      size = int.from_bytes(raw_len, 'big')
      return recv_all(self.conn, size)

  def close(self):
      if self.conn:
          self.conn.close()
      self.sock.close()
  \<close>
  The variable \<open>prefix\<close> is written \<open>pre\<close>. A socket object is always true, so
  \<open>if self.conn\<close> tests \<open>self.conn\<close> against \<open>None\<close>.
\<close>

definition TCPServer_send :: "TCPServer \<Rightarrow> bytes \<Rightarrow> (unit, TCPServer) outcome" where
  "TCPServer_send srv data =
     (case to_bytes (length data) (prefix_size srv) of
        Inl e \<Rightarrow> Some (Inl e, srv)
      | Inr pre \<Rightarrow>
          map_option (\<lambda>(r, c'). (r, srv\<lparr>conn := c'\<rparr>)) (send_all_conn (conn srv) (pre @ data)))"

definition TCPServer_recv :: "TCPServer \<Rightarrow> (bytes, TCPServer) outcome" where
  "TCPServer_recv srv =
     (case recv_all_conn (conn srv) (prefix_size srv) of
        None \<Rightarrow> None
      | Some (Inl e, c') \<Rightarrow> Some (Inl e, srv\<lparr>conn := c'\<rparr>)
      | Some (Inr raw_len, c') \<Rightarrow>
          map_option (\<lambda>(r, c''). (r, srv\<lparr>conn := c''\<rparr>))
            (recv_all_conn c' (int (from_bytes raw_len))))"

definition TCPServer_close :: "TCPServer \<Rightarrow> (unit, TCPServer) outcome" where
  "TCPServer_close srv =
     Some (Inr (),
           srv\<lparr>conn := (case conn srv of None \<Rightarrow> None | Some c \<Rightarrow> Some (sock_close c)),
               sock := listener_close (sock srv)\<rparr>)"

subsection \<open>TCPClient\<close>

text \<open>
  The client has the fields \<open>host\<close>, \<open>port\<close>, \<open>prefix_size\<close> and \<open>sock\<close> as well; they
  are written with a leading \<open>c\<close> to keep them apart from the server's.
  \<^verbatim>\<open>
  def __init__(self, host, port, prefix_size=1):

  def register(self):
      self.sock.connect((self.host, self.port))

  def send(self, data):
      prefix = len(data).to_bytes(self.prefix_size, 'big')
      send_all(self.sock, prefix + data)

  def recv(self):
      raw_len = recv_all(self.sock, self.prefix_size)
      size = int.from_bytes(raw_len, 'big')
      return recv_all(self.sock, size)

  def close(self):
      self.sock.close()
  \<close>
\<close>

record TCPClient =
  chost :: string
  cport :: int
  cprefix_size :: int
  csock :: socket

definition TCPClient_init :: "string \<Rightarrow> int \<Rightarrow> int option \<Rightarrow> socket \<Rightarrow> TCPClient" where
  "TCPClient_init h p prefix_size_arg new_sock =
     \<lparr>chost = h, cport = p,
      cprefix_size = (case prefix_size_arg of None \<Rightarrow> 1 | Some w \<Rightarrow> w),
      csock = new_sock\<rparr>"

definition TCPClient_register :: "TCPClient \<Rightarrow> (unit, TCPClient) outcome" where
  "TCPClient_register cl =
     (case sock_connect (csock cl) of
        Inl e \<Rightarrow> Some (Inl e, cl)
      | Inr s' \<Rightarrow> Some (Inr (), cl\<lparr>csock := s'\<rparr>))"

definition TCPClient_send :: "TCPClient \<Rightarrow> bytes \<Rightarrow> (unit, TCPClient) outcome" where
  "TCPClient_send cl data =
     (case to_bytes (length data) (cprefix_size cl) of
        Inl e \<Rightarrow> Some (Inl e, cl)
      | Inr pre \<Rightarrow>
          map_option (\<lambda>(r, s'). (r, cl\<lparr>csock := s'\<rparr>)) (send_all (csock cl) (pre @ data)))"

definition TCPClient_recv :: "TCPClient \<Rightarrow> (bytes, TCPClient) outcome" where
  "TCPClient_recv cl =
     (case recv_all (csock cl) (cprefix_size cl) of
        None \<Rightarrow> None
      | Some (Inl e, s') \<Rightarrow> Some (Inl e, cl\<lparr>csock := s'\<rparr>)
      | Some (Inr raw_len, s') \<Rightarrow>
          map_option (\<lambda>(r, s''). (r, cl\<lparr>csock := s''\<rparr>))
            (recv_all s' (int (from_bytes raw_len))))"

definition TCPClient_close :: "TCPClient \<Rightarrow> (unit, TCPClient) outcome" where
  "TCPClient_close cl = Some (Inr (), cl\<lparr>csock := sock_close (csock cl)\<rparr>)"

section \<open>Vocabulary of the properties\<close>

text \<open>
  A connection is \<open>healthy\<close> when it is established, not closed locally, and every
  segment of the arrival script holds at least one byte (a read that hands over no byte
  at all only happens at the end of the stream, which \<open>eof\<close> stands for).
\<close>

definition healthy :: "socket \<Rightarrow> bool" where
  "healthy s \<longleftrightarrow> connected s \<and> \<not> closed s \<and> [] \<notin> set (arriving s)"

text \<open>
  \<open>requests_ok missing calls\<close> reads a stretch of \<open>recv_log\<close>: every call asked for at
  most 2048 bytes and for at most the number of bytes still missing when it was made.
\<close>

fun requests_ok :: "int \<Rightarrow> (int \<times> bytes) list \<Rightarrow> bool" where
  "requests_ok missing [] = True"
| "requests_ok missing ((k, chunk) # calls) =
     (k \<le> 2048 \<and> k \<le> missing \<and> requests_ok (missing - int (length chunk)) calls)"

text \<open>
  A caller uses an endpoint through a sequence of method calls; an exception is seen by
  the caller and the endpoint lives on in the state the call left. On the server side a
  further peer may try to connect at any moment. A run ends with \<open>None\<close> when a call
  blocks for ever.
\<close>

datatype call = Register | Send bytes | Recv | Close | PeerConnects "socket \<times> address"

fun TCPServer_step :: "call \<Rightarrow> TCPServer \<Rightarrow> TCPServer option" where
  "TCPServer_step Register srv = map_option snd (TCPServer_register srv)"
| "TCPServer_step (Send m) srv = map_option snd (TCPServer_send srv m)"
| "TCPServer_step Recv srv = map_option snd (TCPServer_recv srv)"
| "TCPServer_step Close srv = map_option snd (TCPServer_close srv)"
| "TCPServer_step (PeerConnects p) srv = Some (srv\<lparr>sock := peer_connects p (sock srv)\<rparr>)"

fun TCPServer_run :: "call list \<Rightarrow> TCPServer \<Rightarrow> TCPServer option" where
  "TCPServer_run [] srv = Some srv"
| "TCPServer_run (c # cs) srv =
     (case TCPServer_step c srv of None \<Rightarrow> None | Some srv' \<Rightarrow> TCPServer_run cs srv')"

text \<open>The client has no listening socket: a peer that connects elsewhere does not touch it.\<close>

fun TCPClient_step :: "call \<Rightarrow> TCPClient \<Rightarrow> TCPClient option" where
  "TCPClient_step Register cl = map_option snd (TCPClient_register cl)"
| "TCPClient_step (Send m) cl = map_option snd (TCPClient_send cl m)"
| "TCPClient_step Recv cl = map_option snd (TCPClient_recv cl)"
| "TCPClient_step Close cl = map_option snd (TCPClient_close cl)"
| "TCPClient_step (PeerConnects p) cl = Some cl"

fun TCPClient_run :: "call list \<Rightarrow> TCPClient \<Rightarrow> TCPClient option" where
  "TCPClient_run [] cl = Some cl"
| "TCPClient_run (c # cs) cl =
     (case TCPClient_step c cl of None \<Rightarrow> None | Some cl' \<Rightarrow> TCPClient_run cs cl')"

section \<open>Auxiliary facts\<close>

declare recv_all_loop.simps [simp del] send_all_loop.simps [simp del]

subsection \<open>The prefix\<close>

lemma length_be_bytes: "length (be_bytes k n) = k"
  by (induction k arbitrary: n) simp_all

lemma from_bytes_snoc: "from_bytes (bs @ [b]) = from_bytes bs * 256 + unat b"
  by (simp add: from_bytes_def)

lemma unat_byte_of_nat: "unat (of_nat (n mod 256) :: byte) = n mod 256"
  by (simp add: unat_of_nat)

lemma from_bytes_be_bytes: "from_bytes (be_bytes k n) = n mod 256 ^ k"
proof (induction k arbitrary: n)
  case 0
  show ?case by (simp add: from_bytes_def)
next
  case (Suc k)
  have "from_bytes (be_bytes (Suc k) n) = (n div 256) mod 256 ^ k * 256 + n mod 256"
    by (simp add: from_bytes_snoc Suc.IH unat_byte_of_nat)
  also have "\<dots> = n mod 256 ^ Suc k"
    by (simp add: mod_mult2_eq)
  finally show ?case .
qed

lemma be_bytes_nth:
  "i < k \<Longrightarrow> unat (be_bytes k n ! i) = (n div 256 ^ (k - 1 - i)) mod 256"
proof (induction k arbitrary: n i)
  case 0
  then show ?case by simp
next
  case (Suc k)
  show ?case
  proof (cases "i < k")
    case True
    then have "unat (be_bytes (Suc k) n ! i) = ((n div 256) div 256 ^ (k - 1 - i)) mod 256"
      by (simp add: nth_append length_be_bytes Suc.IH)
    also have "\<dots> = (n div 256 ^ Suc (k - 1 - i)) mod 256"
      by (simp add: div_mult2_eq)
    also have "Suc (k - 1 - i) = Suc k - 1 - i"
      using True by simp
    finally show ?thesis .
  next
    case False
    with Suc.prems have "i = k" by simp
    then show ?thesis by (simp add: nth_append length_be_bytes unat_byte_of_nat)
  qed
qed

subsection \<open>Reading\<close>

lemma sock_recv_Inr:
  assumes "sock_recv s k = Some (Inr chunk, s')"
  shows "recv_log s' = recv_log s @ [(k, chunk)]" and "int (length chunk) \<le> k"
  using assms by (auto simp: sock_recv_def split: if_splits list.splits)

lemma recv_all_loop_returns:
  assumes "recv_all_loop s n chunks b = Some (Inr bs, s')" and "b \<le> n"
  shows "\<exists>new. recv_log s' = recv_log s @ new \<and> bs = concat chunks @ concat (map snd new) \<and>
           int (length (concat (map snd new))) = n - b \<and> requests_ok (n - b) new"
  using assms
proof (induction s n chunks b arbitrary: bs s' rule: recv_all_loop.induct)
  case (1 s n chunks b)
  show ?case
  proof (cases "b < n")
    case False
    with "1.prems" have "bs = concat chunks" "s' = s" "b = n"
      by (simp_all add: recv_all_loop.simps)
    then show ?thesis by (intro exI [of _ "[]"]) simp
  next
    case True
    let ?k = "min (n - b) 2048"
    from "1.prems"(1) True obtain chunk s1
      where r: "sock_recv s ?k = Some (Inr chunk, s1)" and ne: "chunk \<noteq> []"
        and rest: "recv_all_loop s1 n (chunks @ [chunk]) (b + int (length chunk)) = Some (Inr bs, s')"
      by (subst (asm) recv_all_loop.simps) (auto split: option.splits sum.splits if_splits)
    from sock_recv_Inr [OF r] have log: "recv_log s1 = recv_log s @ [(?k, chunk)]"
      and len: "int (length chunk) \<le> ?k" by simp_all
    from len have le: "b + int (length chunk) \<le> n" by simp
    from "1.IH" [OF True r refl refl ne rest le] obtain new
      where new: "recv_log s' = recv_log s1 @ new"
        "bs = concat (chunks @ [chunk]) @ concat (map snd new)"
        "int (length (concat (map snd new))) = n - (b + int (length chunk))"
        "requests_ok (n - (b + int (length chunk))) new"
      by blast
    show ?thesis
    proof (intro exI [of _ "(?k, chunk) # new"] conjI)
      show "recv_log s' = recv_log s @ (?k, chunk) # new" using new(1) log by simp
      show "bs = concat chunks @ concat (map snd ((?k, chunk) # new))" using new(2) by simp
      show "int (length (concat (map snd ((?k, chunk) # new)))) = n - b" using new(3) by simp
      show "requests_ok (n - b) ((?k, chunk) # new)" using new(4) by (simp add: algebra_simps)
    qed
  qed
qed

lemma sock_recv_healthy:
  assumes "healthy s" and "arriving s \<noteq> []" and "0 < k"
  shows "\<exists>chunk s1. sock_recv s k = Some (Inr chunk, s1) \<and> chunk \<noteq> [] \<and>
           chunk = take (length chunk) (concat (arriving s)) \<and>
           length chunk \<le> length (concat (arriving s)) \<and>
           concat (arriving s1) = drop (length chunk) (concat (arriving s)) \<and>
           healthy s1 \<and> eof s1 = eof s \<and> accepts s1 = accepts s \<and> wire s1 = wire s \<and>
           send_log s1 = send_log s"
proof -
  from assms(2) obtain seg segs where a: "arriving s = seg # segs" by (cases "arriving s") auto
  with assms(1) have seg: "seg \<noteq> []" and segs: "[] \<notin> set segs" by (auto simp: healthy_def)
  let ?chunk = "take (nat k) seg"
  let ?s1 = "s\<lparr>arriving := (if drop (nat k) seg = [] then segs else drop (nat k) seg # segs),
                recv_log := recv_log s @ [(k, ?chunk)]\<rparr>"
  have r: "sock_recv s k = Some (Inr ?chunk, ?s1)"
    using assms(1,3) a by (simp add: sock_recv_def healthy_def)
  have ne: "?chunk \<noteq> []" using seg assms(3) by simp
  have len: "length ?chunk \<le> length seg" by simp
  have c1: "?chunk = take (length ?chunk) (concat (arriving s))"
    using a by (simp add: min_def)
  have c0: "length ?chunk \<le> length (concat (arriving s))"
    using a by simp
  have c2: "concat (arriving ?s1) = drop (length ?chunk) (concat (arriving s))"
    using a by (simp add: min_def)
  have h: "healthy ?s1" using assms(1) segs by (simp add: healthy_def)
  show ?thesis
    by (intro exI [of _ ?chunk] exI [of _ ?s1] conjI)
       (rule r ne c1 c0 c2 h, rule ne, rule c1, rule c0, rule c2, rule h, simp_all)
qed

lemma recv_all_loop_complete:
  assumes "healthy s" and "n - b \<le> int (length (concat (arriving s)))"
  shows "\<exists>s'. recv_all_loop s n chunks b
             = Some (Inr (concat chunks @ take (nat (n - b)) (concat (arriving s))), s') \<and>
           concat (arriving s') = drop (nat (n - b)) (concat (arriving s)) \<and>
           healthy s' \<and> eof s' = eof s \<and> accepts s' = accepts s \<and> wire s' = wire s \<and>
           send_log s' = send_log s"
  using assms
proof (induction s n chunks b rule: recv_all_loop.induct)
  case (1 s n chunks b)
  show ?case
  proof (cases "b < n")
    case False
    then show ?thesis using "1.prems" by (simp add: recv_all_loop.simps)
  next
    case True
    let ?k = "min (n - b) 2048"
    have kpos: "0 < ?k" using True by simp
    have "length (concat (arriving s)) \<noteq> 0" using True "1.prems"(2) by linarith
    then have "arriving s \<noteq> []" by auto
    from sock_recv_healthy [OF "1.prems"(1) this kpos] obtain chunk s1
      where r: "sock_recv s ?k = Some (Inr chunk, s1)" and ne: "chunk \<noteq> []"
        and c1: "chunk = take (length chunk) (concat (arriving s))"
        and c2: "concat (arriving s1) = drop (length chunk) (concat (arriving s))"
        and h1: "healthy s1"
        and same: "eof s1 = eof s" "accepts s1 = accepts s" "wire s1 = wire s" "send_log s1 = send_log s"
      by blast
    from sock_recv_Inr(2) [OF r] have len: "int (length chunk) \<le> n - b" by simp
    have enough: "n - (b + int (length chunk)) \<le> int (length (concat (arriving s1)))"
      using "1.prems"(2) c2 len by simp
    from "1.IH" [OF True r refl refl ne h1 enough] obtain s'
      where res: "recv_all_loop s1 n (chunks @ [chunk]) (b + int (length chunk))
                  = Some (Inr (concat (chunks @ [chunk]) @
                       take (nat (n - (b + int (length chunk)))) (concat (arriving s1))), s')"
        and rest: "concat (arriving s') = drop (nat (n - (b + int (length chunk)))) (concat (arriving s1))"
        and h': "healthy s'"
        and same': "eof s' = eof s1" "accepts s' = accepts s1" "wire s' = wire s1" "send_log s' = send_log s1"
      by blast
    have split: "nat (n - b) = length chunk + nat (n - (b + int (length chunk)))"
      using len by simp
    have "chunk @ take (nat (n - (b + int (length chunk)))) (concat (arriving s1))
            = take (nat (n - b)) (concat (arriving s))"
      by (subst split, subst take_add, subst c2, subst c1 [symmetric]) simp
    then have val: "concat (chunks @ [chunk]) @
            take (nat (n - (b + int (length chunk)))) (concat (arriving s1))
          = concat chunks @ take (nat (n - b)) (concat (arriving s))"
      by simp
    have rest': "concat (arriving s') = drop (nat (n - b)) (concat (arriving s))"
      by (subst split) (simp add: rest c2 add.commute)
    have "recv_all_loop s n chunks b = recv_all_loop s1 n (chunks @ [chunk]) (b + int (length chunk))"
      using True r ne by (subst recv_all_loop.simps) simp
    then show ?thesis
      using res val rest' h' same same' by (intro exI [of _ s']) simp
  qed
qed

lemma recv_all_loop_broken:
  assumes "healthy s" and "eof s" and "int (length (concat (arriving s))) < n - b"
  shows "\<exists>s'. recv_all_loop s n chunks b
             = Some (Inl (RuntimeError ''Socket connection broken during recv''), s')"
  using assms
proof (induction s n chunks b rule: recv_all_loop.induct)
  case (1 s n chunks b)
  have lt: "b < n" using "1.prems"(3) by simp
  let ?k = "min (n - b) 2048"
  show ?case
  proof (cases "arriving s")
    case Nil
    then have "sock_recv s ?k = Some (Inr [], s\<lparr>recv_log := recv_log s @ [(?k, [])]\<rparr>)"
      using "1.prems"(1,2) lt by (simp add: sock_recv_def healthy_def)
    then show ?thesis using lt by (subst recv_all_loop.simps) simp
  next
    case (Cons seg segs)
    then have "arriving s \<noteq> []" by simp
    from sock_recv_healthy [OF "1.prems"(1) this, of ?k] lt obtain chunk s1
      where r: "sock_recv s ?k = Some (Inr chunk, s1)" and ne: "chunk \<noteq> []"
        and c1: "chunk = take (length chunk) (concat (arriving s))"
        and c0: "length chunk \<le> length (concat (arriving s))"
        and c2: "concat (arriving s1) = drop (length chunk) (concat (arriving s))"
        and h1: "healthy s1" and e1: "eof s1 = eof s"
      by auto
    have short: "int (length (concat (arriving s1))) < n - (b + int (length chunk))"
      using "1.prems"(3) c2 c0 by simp
    from "1.IH" [OF lt r refl refl ne h1 _ short] e1 "1.prems"(2) obtain s'
      where "recv_all_loop s1 n (chunks @ [chunk]) (b + int (length chunk))
             = Some (Inl (RuntimeError ''Socket connection broken during recv''), s')"
      by auto
    moreover have "recv_all_loop s n chunks b
        = recv_all_loop s1 n (chunks @ [chunk]) (b + int (length chunk))"
      using lt r ne by (subst recv_all_loop.simps) simp
    ultimately show ?thesis by auto
  qed
qed

subsection \<open>Writing\<close>

lemma sock_send_Inr:
  assumes "sock_send s buf = Some (Inr k, s')"
  shows "k \<le> length buf" and "wire s' = wire s @ take k buf"
    and "send_log s' = send_log s @ [buf]"
    and "connected s' = connected s" and "closed s' = closed s"
  using assms by (auto simp: sock_send_def split: if_splits list.splits)

lemma send_all_loop_returns:
  assumes "send_all_loop s data t = Some (Inr (), s')" and "t \<le> length data"
  shows "wire s' = wire s @ drop t data"
  using assms
proof (induction s data t rule: send_all_loop.induct)
  case (1 s data t)
  show ?case
  proof (cases "t < length data")
    case False
    with "1.prems" show ?thesis by (simp add: send_all_loop.simps)
  next
    case True
    from "1.prems"(1) True obtain k s1
      where r: "sock_send s (drop t data) = Some (Inr k, s1)" and k: "k \<noteq> 0"
        and rest: "send_all_loop s1 data (t + k) = Some (Inr (), s')"
      by (subst (asm) send_all_loop.simps) (auto split: option.splits sum.splits if_splits)
    from sock_send_Inr(1,2) [OF r] True have le: "t + k \<le> length data"
      and w: "wire s1 = wire s @ take k (drop t data)" by simp_all
    from "1.IH" [OF True r refl refl k rest le]
    have "wire s' = wire s @ take k (drop t data) @ drop k (drop t data)"
      by (simp add: w add.commute)
    then show ?thesis by (simp only: append_take_drop_id)
  qed
qed

lemma send_all_loop_broken:
  assumes "connected s" and "\<not> closed s"
    and "accepts s = ks @ 0 # rest" and "0 \<notin> set ks" and "t + sum_list ks < length data"
  shows "\<exists>s'. send_all_loop s data t
               = Some (Inl (RuntimeError ''Socket connection broken during send''), s') \<and>
             accepts s' = rest \<and> wire s' = wire s @ take (sum_list ks) (drop t data) \<and>
             length (send_log s') = length (send_log s) + length ks + 1"
  using assms
proof (induction ks arbitrary: s t)
  case Nil
  let ?s1 = "s\<lparr>accepts := rest, wire := wire s @ take (min 0 (length (drop t data))) (drop t data),
                send_log := send_log s @ [drop t data]\<rparr>"
  have "sock_send s (drop t data) = Some (Inr (min 0 (length (drop t data))), ?s1)"
    using Nil.prems by (simp add: sock_send_def)
  then have "send_all_loop s data t
      = Some (Inl (RuntimeError ''Socket connection broken during send''), ?s1)"
    using Nil.prems by (subst send_all_loop.simps) simp
  then show ?case by (intro exI [of _ ?s1]) simp
next
  case (Cons k ks)
  have k: "0 < k" and kle: "k \<le> length (drop t data)" using Cons.prems(4,5) by simp_all
  let ?s1 = "s\<lparr>accepts := ks @ 0 # rest, wire := wire s @ take k (drop t data),
                send_log := send_log s @ [drop t data]\<rparr>"
  have r: "sock_send s (drop t data) = Some (Inr k, ?s1)"
    using Cons.prems(1,2,3) kle by (simp add: sock_send_def min_def)
  have step: "send_all_loop s data t = send_all_loop ?s1 data (t + k)"
    using r k Cons.prems(5) by (subst send_all_loop.simps) simp
  have "\<exists>s'. send_all_loop ?s1 data (t + k)
               = Some (Inl (RuntimeError ''Socket connection broken during send''), s') \<and>
             accepts s' = rest \<and> wire s' = wire ?s1 @ take (sum_list ks) (drop (t + k) data) \<and>
             length (send_log s') = length (send_log ?s1) + length ks + 1"
    using Cons.prems by (intro Cons.IH) simp_all
  then obtain s' where s': "send_all_loop ?s1 data (t + k)
               = Some (Inl (RuntimeError ''Socket connection broken during send''), s')"
      "accepts s' = rest" "wire s' = wire ?s1 @ take (sum_list ks) (drop (t + k) data)"
      "length (send_log s') = length (send_log ?s1) + length ks + 1"
    by blast
  have "take k (drop t data) @ take (sum_list ks) (drop (t + k) data)
        = take (sum_list (k # ks)) (drop t data)"
    by (simp add: take_add add.commute)
  then have "wire s' = wire s @ take (sum_list (k # ks)) (drop t data)"
    using s'(3) by simp
  then show ?case using step s'(1,2,4) by (intro exI [of _ s']) simp
qed

lemma send_all_loop_complete:
  assumes "connected s" and "\<not> closed s"
    and "0 \<notin> set (accepts s)" and "length data \<le> t + sum_list (accepts s)"
  shows "\<exists>s'. send_all_loop s data t = Some (Inr (), s')"
  using assms
proof (induction s data t rule: send_all_loop.induct)
  case (1 s data t)
  show ?case
  proof (cases "t < length data")
    case False
    then show ?thesis by (simp add: send_all_loop.simps)
  next
    case True
    with "1.prems"(4) obtain k ks where a: "accepts s = k # ks" by (cases "accepts s") auto
    let ?j = "min k (length (drop t data))"
    let ?s1 = "s\<lparr>accepts := ks, wire := wire s @ take ?j (drop t data),
                  send_log := send_log s @ [drop t data]\<rparr>"
    have r: "sock_send s (drop t data) = Some (Inr ?j, ?s1)"
      using "1.prems"(1,2) a by (simp add: sock_send_def)
    have j: "?j \<noteq> 0" using "1.prems"(3) a True by simp
    have "\<exists>s'. send_all_loop ?s1 data (t + ?j) = Some (Inr (), s')"
      using "1.prems" a True by (intro "1.IH" [OF True r refl refl j]) (simp_all add: min_def)
    moreover have "send_all_loop s data t = send_all_loop ?s1 data (t + ?j)"
      using r j True by (subst send_all_loop.simps) (auto simp: min_def)
    ultimately show ?thesis by simp
  qed
qed

subsection \<open>The endpoints in terms of the loops\<close>

lemma TCPServer_recv_conn:
  "conn srv = Some c \<Longrightarrow>
   TCPServer_recv srv =
     (case recv_all c (prefix_size srv) of
        None \<Rightarrow> None
      | Some (Inl e, c') \<Rightarrow> Some (Inl e, srv\<lparr>conn := Some c'\<rparr>)
      | Some (Inr raw_len, c') \<Rightarrow>
          map_option (\<lambda>(r, c''). (r, srv\<lparr>conn := Some c''\<rparr>))
            (recv_all c' (int (from_bytes raw_len))))"
  by (simp add: TCPServer_recv_def recv_all_conn_def map_option_case
           split: option.splits sum.splits prod.splits)

lemma TCPServer_send_conn:
  "conn srv = Some c \<Longrightarrow> 0 \<le> prefix_size srv \<Longrightarrow> length m < 256 ^ nat (prefix_size srv) \<Longrightarrow>
   TCPServer_send srv m =
     map_option (\<lambda>(r, c'). (r, srv\<lparr>conn := Some c'\<rparr>))
       (send_all c (be_bytes (nat (prefix_size srv)) (length m) @ m))"
  by (simp add: TCPServer_send_def send_all_conn_def to_bytes_def map_option_case
           split: option.splits sum.splits prod.splits)

lemma TCPClient_send_fits:
  "0 \<le> cprefix_size cl \<Longrightarrow> length m < 256 ^ nat (cprefix_size cl) \<Longrightarrow>
   TCPClient_send cl m =
     map_option (\<lambda>(r, s'). (r, cl\<lparr>csock := s'\<rparr>))
       (send_all (csock cl) (be_bytes (nat (cprefix_size cl)) (length m) @ m))"
  by (simp add: TCPClient_send_def to_bytes_def)

lemma recv_frame:
  assumes "healthy c" and "0 \<le> W" and "length m < 256 ^ nat W"
    and "concat (arriving c) = be_bytes (nat W) (length m) @ m @ rest"
  shows "\<exists>c1 c2. recv_all c W = Some (Inr (be_bytes (nat W) (length m)), c1) \<and>
           recv_all c1 (int (from_bytes (be_bytes (nat W) (length m)))) = Some (Inr m, c2) \<and>
           concat (arriving c2) = rest \<and> healthy c2"
proof -
  let ?pre = "be_bytes (nat W) (length m)"
  have lp: "length ?pre = nat W" by (simp add: length_be_bytes)
  have "W - 0 \<le> int (length (concat (arriving c)))"
    using assms(2,4) lp by simp
  from recv_all_loop_complete [OF assms(1) this, of "[]"] obtain c1
    where r1: "recv_all c W = Some (Inr (take (nat W) (concat (arriving c))), c1)"
      and a1: "concat (arriving c1) = drop (nat W) (concat (arriving c))"
      and h1: "healthy c1"
    by (auto simp: recv_all_def)
  have t1: "take (nat W) (concat (arriving c)) = ?pre" using assms(4) lp by simp
  have d1: "concat (arriving c1) = m @ rest" using a1 assms(4) lp by simp
  have fb: "from_bytes ?pre = length m"
    using assms(3) by (simp add: from_bytes_be_bytes)
  have "int (length m) - 0 \<le> int (length (concat (arriving c1)))" using d1 by simp
  from recv_all_loop_complete [OF h1 this, of "[]"] obtain c2
    where r2: "recv_all c1 (int (length m)) = Some (Inr (take (length m) (concat (arriving c1))), c2)"
      and a2: "concat (arriving c2) = drop (length m) (concat (arriving c1))"
      and h2: "healthy c2"
    by (auto simp: recv_all_def)
  show ?thesis
    using r1 r2 a2 h2 t1 d1 fb by (intro exI [of _ c1] exI [of _ c2]) simp
qed


subsection \<open>A closed endpoint\<close>

lemma recv_all_closed:
  "closed s \<Longrightarrow> 0 < n \<Longrightarrow> recv_all s n = Some (Inl OSError, s)"
  by (simp add: recv_all_def recv_all_loop.simps sock_recv_def)

lemma send_all_closed:
  "closed s \<Longrightarrow> data \<noteq> [] \<Longrightarrow> send_all s data = Some (Inl OSError, s)"
  by (simp add: send_all_def send_all_loop.simps sock_send_def)

lemma be_bytes_nonempty: "0 < k \<Longrightarrow> be_bytes k n @ m \<noteq> []"
  by (cases k) simp_all

lemma TCPServer_recv_closed:
  assumes "1 \<le> prefix_size srv" and "conn srv = Some c" and "closed c"
  shows "TCPServer_recv srv = Some (Inl OSError, srv)"
  using assms by (simp add: TCPServer_recv_conn recv_all_closed)

lemma TCPServer_send_closed:
  assumes "1 \<le> prefix_size srv" and "conn srv = Some c" and "closed c"
  shows "TCPServer_send srv m
         = Some (Inl (if length m < 256 ^ nat (prefix_size srv) then OSError else OverflowError), srv)"
proof (cases "length m < 256 ^ nat (prefix_size srv)")
  case True
  have "be_bytes (nat (prefix_size srv)) (length m) @ m \<noteq> []"
    using assms(1) by (intro be_bytes_nonempty) simp
  from send_all_closed [OF assms(3) this] True show ?thesis
    using assms by (simp add: TCPServer_send_conn)
next
  case False
  then show ?thesis using assms by (simp add: TCPServer_send_def to_bytes_def)
qed

lemma TCPClient_recv_closed:
  assumes "1 \<le> cprefix_size cl" and "closed (csock cl)"
  shows "TCPClient_recv cl = Some (Inl OSError, cl)"
  using assms by (simp add: TCPClient_recv_def recv_all_closed)

lemma TCPClient_send_closed:
  assumes "1 \<le> cprefix_size cl" and "closed (csock cl)"
  shows "TCPClient_send cl m
         = Some (Inl (if length m < 256 ^ nat (cprefix_size cl) then OSError else OverflowError), cl)"
proof (cases "length m < 256 ^ nat (cprefix_size cl)")
  case True
  have "be_bytes (nat (cprefix_size cl)) (length m) @ m \<noteq> []"
    using assms(1) by (intro be_bytes_nonempty) simp
  from send_all_closed [OF assms(2) this] True show ?thesis
    using assms by (simp add: TCPClient_send_fits)
next
  case False
  then show ?thesis using assms by (simp add: TCPClient_send_def to_bytes_def)
qed

lemma TCPServer_step_closed:
  assumes "1 \<le> prefix_size srv" and "conn srv = Some c" and "closed c" and "l_closed (sock srv)"
  shows "TCPServer_step x srv = Some srv"
proof (cases x)
  case Register
  then show ?thesis using assms by (simp add: TCPServer_register_def sock_bind_def)
next
  case (Send m)
  then show ?thesis using assms by (simp add: TCPServer_send_closed)
next
  case Recv
  then show ?thesis using assms by (simp add: TCPServer_recv_closed)
next
  case Close
  then show ?thesis using assms by (simp add: TCPServer_close_def sock_close_def listener_close_def)
next
  case (PeerConnects p)
  then show ?thesis using assms by (simp add: peer_connects_def split: option.splits)
qed

lemma TCPServer_run_closed:
  assumes "1 \<le> prefix_size srv" and "conn srv = Some c" and "closed c" and "l_closed (sock srv)"
  shows "TCPServer_run xs srv = Some srv"
  by (induction xs) (simp_all add: TCPServer_step_closed [OF assms])

lemma TCPClient_step_closed:
  assumes "1 \<le> cprefix_size cl" and "closed (csock cl)"
  shows "TCPClient_step x cl = Some cl"
proof (cases x)
  case Register
  then show ?thesis using assms by (simp add: TCPClient_register_def sock_connect_def)
next
  case (Send m)
  then show ?thesis using assms by (simp add: TCPClient_send_closed)
next
  case Recv
  then show ?thesis using assms by (simp add: TCPClient_recv_closed)
next
  case Close
  then show ?thesis using assms by (simp add: TCPClient_close_def sock_close_def)
next
  case (PeerConnects p)
  then show ?thesis by simp
qed

lemma TCPClient_run_closed:
  assumes "1 \<le> cprefix_size cl" and "closed (csock cl)"
  shows "TCPClient_run xs cl = Some cl"
  by (induction xs) (simp_all add: TCPClient_step_closed [OF assms])

subsection \<open>A server that has accepted its connection\<close>

lemma TCPServer_register_ok:
  assumes "TCPServer_register srv = Some (Inr (), srv1)"
  shows "l_bound (sock srv1)" and "conn srv1 \<noteq> None" and "addr srv1 \<noteq> None"
    and "handed_out (sock srv1) = Suc (handed_out (sock srv))"
    and "\<exists>p. queue (sock srv) = p # queue (sock srv1) \<and> conn srv1 = Some (fst p) \<and>
             addr srv1 = Some (snd p)"
  using assms
  by (auto simp: TCPServer_register_def sock_bind_def sock_listen_def sock_accept_def
           split: if_splits list.splits)

lemma TCPServer_step_bound:
  assumes "l_bound (sock srv)" and "conn srv \<noteq> None" and "TCPServer_step x srv = Some srv'"
  shows "l_bound (sock srv') \<and> conn srv' \<noteq> None \<and>
         handed_out (sock srv') = handed_out (sock srv) \<and> addr srv' = addr srv \<and>
         (\<exists>later. queue (sock srv') = queue (sock srv) @ later)"
proof (cases x)
  case Register
  then show ?thesis using assms by (auto simp: TCPServer_register_def sock_bind_def)
next
  case (Send m)
  then show ?thesis
    using assms
    by (auto simp: TCPServer_send_def send_all_conn_def split: sum.splits)
next
  case Recv
  then show ?thesis
    using assms
    by (auto simp: TCPServer_recv_def recv_all_conn_def split: sum.splits option.splits if_splits)
next
  case Close
  then show ?thesis
    using assms by (auto simp: TCPServer_close_def listener_close_def)
next
  case (PeerConnects p)
  then show ?thesis
    using assms by (auto simp: peer_connects_def split: option.splits)
qed

lemma TCPServer_run_bound:
  assumes "TCPServer_run xs srv = Some srv'" and "l_bound (sock srv)" and "conn srv \<noteq> None"
  shows "l_bound (sock srv') \<and> conn srv' \<noteq> None \<and>
         handed_out (sock srv') = handed_out (sock srv) \<and> addr srv' = addr srv \<and>
         (\<exists>later. queue (sock srv') = queue (sock srv) @ later)"
  using assms
proof (induction xs arbitrary: srv)
  case Nil
  then show ?case by simp
next
  case (Cons x xs)
  from Cons.prems(1) obtain mid where st: "TCPServer_step x srv = Some mid"
    and rn: "TCPServer_run xs mid = Some srv'"
    by (auto split: option.splits)
  from TCPServer_step_bound [OF Cons.prems(2,3) st]
  have m: "l_bound (sock mid)" "conn mid \<noteq> None"
    "handed_out (sock mid) = handed_out (sock srv)" "addr mid = addr srv"
    "\<exists>later. queue (sock mid) = queue (sock srv) @ later"
    by simp_all
  from Cons.IH [OF rn m(1,2)] m(3,4,5) show ?case by auto
qed

lemma sock_recv_arriving:
  assumes "sock_recv s k = Some (r, s')"
  shows "\<exists>j. concat (arriving s') = drop j (concat (arriving s))"
proof (cases "k < 0 \<or> closed s \<or> \<not> connected s \<or> arriving s = []")
  case True
  then have "arriving s' = arriving s"
    using assms by (auto simp: sock_recv_def split: if_splits)
  then show ?thesis by (intro exI [of _ 0]) simp
next
  case False
  then obtain seg segs where a: "arriving s = seg # segs" by (cases "arriving s") auto
  with False assms
  have "arriving s' = (if drop (nat k) seg = [] then segs else drop (nat k) seg # segs)"
    by (auto simp: sock_recv_def)
  then have "concat (arriving s') = drop (min (nat k) (length seg)) (concat (arriving s))"
    using a by (simp add: min_def)
  then show ?thesis by blast
qed

lemma recv_all_loop_arriving:
  assumes "recv_all_loop s n chunks b = Some (r, s')"
  shows "\<exists>j. concat (arriving s') = drop j (concat (arriving s))"
  using assms
proof (induction s n chunks b rule: recv_all_loop.induct)
  case (1 s n chunks b)
  show ?case
  proof (cases "b < n")
    case False
    with "1.prems" have "s' = s" by (simp add: recv_all_loop.simps)
    then show ?thesis by (intro exI [of _ 0]) simp
  next
    case True
    from "1.prems" True obtain r1 s1 where r: "sock_recv s (min (n - b) 2048) = Some (r1, s1)"
      by (subst (asm) recv_all_loop.simps) (auto split: option.splits)
    from sock_recv_arriving [OF r] obtain j
      where j: "concat (arriving s1) = drop j (concat (arriving s))" by blast
    show ?thesis
    proof (cases "\<exists>chunk. r1 = Inr chunk \<and> chunk \<noteq> []")
      case False
      with "1.prems" True r have "s' = s1"
        by (subst (asm) recv_all_loop.simps) (auto split: sum.splits if_splits)
      with j show ?thesis by blast
    next
      case True
      then obtain chunk where c: "r1 = Inr chunk" "chunk \<noteq> []" by blast
      with "1.prems" \<open>b < n\<close> r
      have "recv_all_loop s1 n (chunks @ [chunk]) (b + int (length chunk)) = Some (r, s')"
        by (subst (asm) recv_all_loop.simps) simp
      from "1.IH" [OF \<open>b < n\<close> r [unfolded c(1)] refl refl c(2) this] obtain i
        where "concat (arriving s') = drop i (concat (arriving s1))" by blast
      with j have "concat (arriving s') = drop (i + j) (concat (arriving s))" by simp
      then show ?thesis by blast
    qed
  qed
qed

lemma sock_send_arriving:
  "sock_send s buf = Some (r, s') \<Longrightarrow> arriving s' = arriving s"
  by (auto simp: sock_send_def split: if_splits list.splits)

lemma send_all_loop_arriving:
  assumes "send_all_loop s data t = Some (r, s')"
  shows "arriving s' = arriving s"
  using assms
proof (induction s data t rule: send_all_loop.induct)
  case (1 s data t)
  show ?case
  proof (cases "t < length data")
    case False
    with "1.prems" show ?thesis by (simp add: send_all_loop.simps)
  next
    case True
    from "1.prems" True obtain r1 s1 where r: "sock_send s (drop t data) = Some (r1, s1)"
      by (subst (asm) send_all_loop.simps) (auto split: option.splits)
    note a = sock_send_arriving [OF r]
    show ?thesis
    proof (cases "\<exists>k. r1 = Inr k \<and> k \<noteq> 0")
      case False
      with "1.prems" True r have "s' = s1"
        by (subst (asm) send_all_loop.simps) (auto split: sum.splits if_splits)
      with a show ?thesis by simp
    next
      case True
      then obtain k where k: "r1 = Inr k" "k \<noteq> 0" by blast
      with "1.prems" \<open>t < length data\<close> r
      have "send_all_loop s1 data (t + k) = Some (r, s')"
        by (subst (asm) send_all_loop.simps) simp
      from "1.IH" [OF \<open>t < length data\<close> r [unfolded k(1)] refl refl k(2) this] a
      show ?thesis by simp
    qed
  qed
qed

lemma TCPServer_step_stream:
  assumes "l_bound (sock srv)" and "conn srv = Some c" and "TCPServer_step x srv = Some srv'"
  shows "\<exists>c' j. conn srv' = Some c' \<and> concat (arriving c') = drop j (concat (arriving c))"
proof (cases x)
  case Register
  with assms have "srv' = srv" by (auto simp: TCPServer_register_def sock_bind_def)
  with assms(2) show ?thesis by (intro exI [of _ c] exI [of _ 0]) simp
next
  case (Send m)
  show ?thesis
  proof (cases "to_bytes (length m) (prefix_size srv)")
    case (Inl e)
    with assms Send have "srv' = srv" by (simp add: TCPServer_send_def)
    with assms(2) show ?thesis by (intro exI [of _ c] exI [of _ 0]) simp
  next
    case (Inr pre)
    with assms Send obtain r c1 where "send_all c (pre @ m) = Some (r, c1)"
      and "srv' = srv\<lparr>conn := Some c1\<rparr>"
      by (auto simp: TCPServer_send_def send_all_conn_def)
    with send_all_loop_arriving [of c "pre @ m" 0 r c1] show ?thesis
      by (intro exI [of _ c1] exI [of _ 0]) (simp add: send_all_def)
  qed
next
  case Recv
  from assms Recv obtain r1 c1 where r1: "recv_all c (prefix_size srv) = Some (r1, c1)"
    by (auto simp: TCPServer_recv_conn split: option.splits)
  from recv_all_loop_arriving [of c _ "[]" 0 r1 c1] r1 obtain j
    where j: "concat (arriving c1) = drop j (concat (arriving c))"
    by (auto simp: recv_all_def)
  show ?thesis
  proof (cases r1)
    case (Inl e)
    with assms Recv r1 have "srv' = srv\<lparr>conn := Some c1\<rparr>"
      by (simp add: TCPServer_recv_conn)
    with j show ?thesis by (intro exI [of _ c1] exI [of _ j]) simp
  next
    case (Inr raw_len)
    with assms Recv r1 obtain r2 c2
      where r2: "recv_all c1 (int (from_bytes raw_len)) = Some (r2, c2)"
        and s': "srv' = srv\<lparr>conn := Some c2\<rparr>"
      by (auto simp: TCPServer_recv_conn)
    from recv_all_loop_arriving [of c1 _ "[]" 0 r2 c2] r2 obtain i
      where "concat (arriving c2) = drop i (concat (arriving c1))"
      by (auto simp: recv_all_def)
    with j have "concat (arriving c2) = drop (i + j) (concat (arriving c))" by simp
    with s' show ?thesis by (intro exI [of _ c2] exI [of _ "i + j"]) simp
  qed
next
  case Close
  with assms have "conn srv' = Some (sock_close c)" by (auto simp: TCPServer_close_def)
  then show ?thesis by (intro exI [of _ "sock_close c"] exI [of _ 0]) (simp add: sock_close_def)
next
  case (PeerConnects p)
  with assms have "conn srv' = Some c" by auto
  then show ?thesis by (intro exI [of _ c] exI [of _ 0]) simp
qed

lemma TCPServer_run_stream:
  assumes "TCPServer_run xs srv = Some srv'" and "l_bound (sock srv)" and "conn srv = Some c"
  shows "\<exists>c' j. conn srv' = Some c' \<and> concat (arriving c') = drop j (concat (arriving c))"
  using assms
proof (induction xs arbitrary: srv c)
  case Nil
  then show ?case by (intro exI [of _ c] exI [of _ 0]) simp
next
  case (Cons x xs)
  from Cons.prems(1) obtain mid where st: "TCPServer_step x srv = Some mid"
    and rn: "TCPServer_run xs mid = Some srv'"
    by (auto split: option.splits)
  from TCPServer_step_stream [OF Cons.prems(2,3) st] obtain c1 j
    where c1: "conn mid = Some c1" "concat (arriving c1) = drop j (concat (arriving c))"
    by blast
  have "l_bound (sock mid)"
    using TCPServer_step_bound [OF Cons.prems(2) _ st] Cons.prems(3) by simp
  from Cons.IH [OF rn this c1(1)] obtain c' i
    where "conn srv' = Some c'" "concat (arriving c') = drop i (concat (arriving c1))"
    by blast
  with c1(2) have "conn srv' = Some c' \<and> concat (arriving c') = drop (i + j) (concat (arriving c))"
    by simp
  then show ?case by blast
qed

section \<open>Properties\<close>

subsection \<open>Construction and close\<close>


text \<open>
  C10: a server is constructed with \<open>conn = None\<close>, and \<open>close()\<close> on a server whose
  \<open>conn\<close> is \<open>None\<close> returns without an exception; the only change is that the listening
  socket is closed.
\<close>

theorem close_without_connection:
  "conn (TCPServer_init h p b w l) = None \<and>
   (conn srv = None \<longrightarrow>
      TCPServer_close srv = Some (Inr (), srv\<lparr>sock := listener_close (sock srv)\<rparr>) \<and>
      l_closed (listener_close (sock srv)))"
  by (simp add: TCPServer_close_def TCPServer_init_def listener_close_def)

theorem close_without_connection_witness:
  "conn (TCPServer_init ''0.0.0.0'' 50007 None None (new_listener True [])) = None \<and>
   TCPServer_close (TCPServer_init ''0.0.0.0'' 50007 None None (new_listener True []))
     = Some (Inr (), \<lparr>host = ''0.0.0.0'', port = 50007, backlog = 4, prefix_size = 1,
                      sock = \<lparr>l_closed = True, l_bound = False, l_listening = None,
                              addr_free = True, queue = [], handed_out = 0\<rparr>,
                      conn = None, addr = None\<rparr>)"
  using close_without_connection
          [of "''0.0.0.0''" 50007 None None "new_listener True []"
              "TCPServer_init ''0.0.0.0'' 50007 None None (new_listener True [])"]
  by (simp add: TCPServer_init_def new_listener_def listener_close_def)

subsection \<open>Messages that do not fit the prefix\<close>

text \<open>
  C2: when the length of the message is \<open>256 ^ prefix_size\<close> or more, \<open>send\<close> raises
  \<open>OverflowError\<close> (the message is too large for the prefix) and leaves the endpoint,
  its connection included, exactly as it was: nothing is passed to \<open>sock.send\<close> and the
  byte stream is unchanged. This holds for the server and for the client.
\<close>

theorem send_too_large:
  assumes "0 \<le> W" and "256 ^ nat W \<le> length m"
    and "prefix_size srv = W" and "cprefix_size cl = W"
  shows "TCPServer_send srv m = Some (Inl OverflowError, srv) \<and>
         TCPClient_send cl m = Some (Inl OverflowError, cl)"
  using assms by (simp add: TCPServer_send_def TCPClient_send_def to_bytes_def)

theorem send_too_large_witness:
  "TCPServer_send
     ((TCPServer_init ''h'' 1 None (Some 1) (new_listener True []))
        \<lparr>conn := Some (new_connection [1000] [] False)\<rparr>) (replicate 256 0)
   = Some (Inl OverflowError,
       (TCPServer_init ''h'' 1 None (Some 1) (new_listener True []))
        \<lparr>conn := Some (new_connection [1000] [] False)\<rparr>) \<and>
   TCPClient_send
     (TCPClient_init ''h'' 1 (Some 1) (new_connection [1000] [] False)) (replicate 256 0)
   = Some (Inl OverflowError,
       TCPClient_init ''h'' 1 (Some 1) (new_connection [1000] [] False))"
  using send_too_large
          [of 1 "replicate 256 0"
              "(TCPServer_init ''h'' 1 None (Some 1) (new_listener True []))
                 \<lparr>conn := Some (new_connection [1000] [] False)\<rparr>"
              "TCPClient_init ''h'' 1 (Some 1) (new_connection [1000] [] False)"]
  by (simp add: TCPServer_init_def TCPClient_init_def)

subsection \<open>The two loops\<close>

text \<open>
  C3: \<open>recv_all(sock, n)\<close> with \<open>n \<ge> 0\<close>. Whenever it returns, the buffer returned is the
  concatenation, in the order of the calls, of the chunks that the \<open>sock.recv\<close> calls
  of this run returned; it holds exactly \<open>n\<close> bytes; and every one of these calls asked
  for at most 2048 bytes and at most the number of bytes still missing. It does return
  on a healthy connection on which at least \<open>n\<close> bytes arrive, whatever the
  segmentation: with the first \<open>n\<close> bytes of the stream, leaving the rest unread.
\<close>

theorem recv_all_exact:
  assumes "0 \<le> n"
  shows "(recv_all s n = Some (Inr bs, s') \<longrightarrow>
            (\<exists>calls. recv_log s' = recv_log s @ calls \<and> bs = concat (map snd calls) \<and>
                     int (length bs) = n \<and> requests_ok n calls)) \<and>
         (healthy s \<and> n \<le> int (length (concat (arriving s))) \<longrightarrow>
            (\<exists>s''. recv_all s n = Some (Inr (take (nat n) (concat (arriving s))), s'') \<and>
                   concat (arriving s'') = drop (nat n) (concat (arriving s))))"
proof (intro conjI impI)
  assume "recv_all s n = Some (Inr bs, s')"
  then have "recv_all_loop s n [] 0 = Some (Inr bs, s')" by (simp add: recv_all_def)
  from recv_all_loop_returns [OF this assms] obtain calls
    where "recv_log s' = recv_log s @ calls" "bs = concat [] @ concat (map snd calls)"
      "int (length (concat (map snd calls))) = n - 0" "requests_ok (n - 0) calls"
    by blast
  then show "\<exists>calls. recv_log s' = recv_log s @ calls \<and> bs = concat (map snd calls) \<and>
                     int (length bs) = n \<and> requests_ok n calls"
    by (intro exI [of _ calls]) simp
next
  assume a: "healthy s \<and> n \<le> int (length (concat (arriving s)))"
  then have "n - 0 \<le> int (length (concat (arriving s)))" by simp
  from recv_all_loop_complete [OF _ this, of "[]"] a
  show "\<exists>s''. recv_all s n = Some (Inr (take (nat n) (concat (arriving s))), s'') \<and>
                   concat (arriving s'') = drop (nat n) (concat (arriving s))"
    by (auto simp: recv_all_def)
qed

theorem recv_all_exact_witness:
  "(0::int) \<le> 3 \<and>
   healthy (new_connection [] [[1, 2], [3, 4, 5]] False) \<and>
   (3::int) \<le> int (length (concat (arriving (new_connection [] [[1, 2], [3, 4, 5]] False)))) \<and>
   recv_all (new_connection [] [[1, 2], [3, 4, 5]] False) 3
     = Some (Inr [1, 2, 3],
         (new_connection [] [[4, 5]] False)\<lparr>recv_log := [(3, [1, 2]), (1, [3])]\<rparr>) \<and>
   (\<exists>calls. recv_log ((new_connection [] [[4, 5]] False)\<lparr>recv_log := [(3, [1, 2]), (1, [3])]\<rparr>)
              = recv_log (new_connection [] [[1, 2], [3, 4, 5]] False) @ calls \<and>
            [1, 2, 3] = concat (map snd calls) \<and>
            int (length [1, 2, 3 :: byte]) = 3 \<and> requests_ok 3 calls)"
  (is "?Z \<and> ?H \<and> ?L \<and> ?R \<and> ?T")
proof -
  have z: ?Z by simp
  have r: ?R
    by (simp add: recv_all_def recv_all_loop.simps sock_recv_def new_connection_def
          new_socket_def)
  have h: ?H
    by (simp add: healthy_def new_connection_def new_socket_def)
  have l: ?L
    by (simp add: new_connection_def new_socket_def)
  have t: ?T
    using recv_all_exact [OF z, THEN conjunct1] r by blast
  show ?thesis using z h l r t by blast
qed

text \<open>
  C5: \<open>send_all(sock, data)\<close>. When it returns, the transport has taken every byte of
  \<open>data\<close>, in order. When a \<open>sock.send\<close> call reports zero bytes taken while bytes are
  still unsent (the calls before it took \<open>ks\<close> bytes, fewer than the whole buffer), it
  raises the \<open>RuntimeError\<close> of a broken connection at that very call: no further
  \<open>sock.send\<close> is made, and the transport holds the bytes taken before.
\<close>

theorem send_all_spec:
  "(send_all s data = Some (Inr (), s') \<longrightarrow> wire s' = wire s @ data) \<and>
   (connected s \<and> \<not> closed s \<and> accepts s = ks @ 0 # rest \<and> 0 \<notin> set ks \<and>
    sum_list ks < length data \<longrightarrow>
      (\<exists>s''. send_all s data
                = Some (Inl (RuntimeError ''Socket connection broken during send''), s'') \<and>
             accepts s'' = rest \<and> wire s'' = wire s @ take (sum_list ks) data \<and>
             length (send_log s'') = length (send_log s) + length ks + 1))"
proof (intro conjI impI)
  assume "send_all s data = Some (Inr (), s')"
  then show "wire s' = wire s @ data"
    using send_all_loop_returns [of s data 0 s'] by (simp add: send_all_def)
next
  assume "connected s \<and> \<not> closed s \<and> accepts s = ks @ 0 # rest \<and> 0 \<notin> set ks \<and>
    sum_list ks < length data"
  then show "\<exists>s''. send_all s data
                = Some (Inl (RuntimeError ''Socket connection broken during send''), s'') \<and>
             accepts s'' = rest \<and> wire s'' = wire s @ take (sum_list ks) data \<and>
             length (send_log s'') = length (send_log s) + length ks + 1"
    using send_all_loop_broken [of s ks rest 0 data] by (simp add: send_all_def)
qed

theorem send_all_spec_witness:
  "send_all (new_connection [2, 7] [] False) [1, 2, 3]
     = Some (Inr (), (new_connection [] [] False)
                        \<lparr>wire := [1, 2, 3], send_log := [[1, 2, 3], [3]]\<rparr>) \<and>
   wire ((new_connection [] [] False)\<lparr>wire := [1, 2, 3], send_log := [[1, 2, 3], [3]]\<rparr>)
     = wire (new_connection [2, 7] [] False) @ [1, 2, 3] \<and>
   (connected (new_connection [2, 0, 7] [] False) \<and> \<not> closed (new_connection [2, 0, 7] [] False) \<and>
    accepts (new_connection [2, 0, 7] [] False) = [2] @ 0 # [7] \<and> 0 \<notin> set [2 :: nat] \<and>
    sum_list [2 :: nat] < length [1, 2, 3 :: byte]) \<and>
   (\<exists>s''. send_all (new_connection [2, 0, 7] [] False) [1, 2, 3]
             = Some (Inl (RuntimeError ''Socket connection broken during send''), s'') \<and>
          accepts s'' = [7] \<and>
          wire s'' = wire (new_connection [2, 0, 7] [] False) @ take (sum_list [2]) [1, 2, 3] \<and>
          length (send_log s'')
            = length (send_log (new_connection [2, 0, 7] [] False)) + length [2 :: nat] + 1)"
  (is "?R \<and> ?W \<and> ?H \<and> ?B")
proof -
  have r: ?R
    by (simp add: send_all_def send_all_loop.simps sock_send_def new_connection_def
          new_socket_def)
  have w: ?W by (rule send_all_spec [THEN conjunct1, rule_format, OF r])
  have h: ?H by (simp add: new_connection_def new_socket_def)
  have b: ?B by (rule send_all_spec [THEN conjunct2, rule_format, OF h])
  show ?thesis using r w h b by blast
qed

subsection \<open>Frames\<close>

text \<open>
  C6: for a message \<open>m\<close> whose length fits \<open>prefix_size\<close> bytes, the prefix is the
  big-endian encoding of \<open>len(m)\<close> on exactly \<open>prefix_size\<close> bytes (byte \<open>i\<close> is the
  digit of weight \<open>256 ^ (prefix_size - 1 - i)\<close>), \<open>send\<close> is one call of \<open>send_all\<close> on
  the prefix followed by \<open>m\<close>, and when it returns the transport has taken exactly
  these bytes. The witness is the scenario of the specification: prefix size 1 and
  the message 1 2 3 4 5 put 05 01 02 03 04 05 on the wire.
\<close>

theorem send_frame:
  assumes "0 \<le> W" and "length m < 256 ^ nat W"
  shows "to_bytes (length m) W = Inr (be_bytes (nat W) (length m)) \<and>
         length (be_bytes (nat W) (length m)) = nat W \<and>
         from_bytes (be_bytes (nat W) (length m)) = length m \<and>
         (\<forall>i<nat W. unat (be_bytes (nat W) (length m) ! i)
                      = length m div 256 ^ (nat W - 1 - i) mod 256) \<and>
         (cprefix_size cl = W \<longrightarrow>
            TCPClient_send cl m
              = map_option (\<lambda>(r, s'). (r, cl\<lparr>csock := s'\<rparr>))
                  (send_all (csock cl) (be_bytes (nat W) (length m) @ m)) \<and>
            (TCPClient_send cl m = Some (Inr (), cl') \<longrightarrow>
               wire (csock cl') = wire (csock cl) @ be_bytes (nat W) (length m) @ m)) \<and>
         (prefix_size srv = W \<and> conn srv = Some c \<longrightarrow>
            TCPServer_send srv m
              = map_option (\<lambda>(r, c'). (r, srv\<lparr>conn := Some c'\<rparr>))
                  (send_all c (be_bytes (nat W) (length m) @ m)) \<and>
            (TCPServer_send srv m = Some (Inr (), srv') \<longrightarrow>
               (\<exists>c'. conn srv' = Some c' \<and>
                     wire c' = wire c @ be_bytes (nat W) (length m) @ m)))"
proof (intro conjI impI allI)
  let ?pre = "be_bytes (nat W) (length m)"
  show "to_bytes (length m) W = Inr ?pre" using assms by (simp add: to_bytes_def)
  show "length ?pre = nat W" by (simp add: length_be_bytes)
  show "from_bytes ?pre = length m" using assms(2) by (simp add: from_bytes_be_bytes)
  show "unat (?pre ! i) = length m div 256 ^ (nat W - 1 - i) mod 256" if "i < nat W" for i
    using that by (rule be_bytes_nth)
  {
    assume w: "cprefix_size cl = W"
    then show eq: "TCPClient_send cl m
              = map_option (\<lambda>(r, s'). (r, cl\<lparr>csock := s'\<rparr>)) (send_all (csock cl) (?pre @ m))"
      using assms TCPClient_send_fits [of cl m] by simp
    assume "TCPClient_send cl m = Some (Inr (), cl')"
    then have "map_option (\<lambda>(r, s'). (r, cl\<lparr>csock := s'\<rparr>)) (send_all (csock cl) (?pre @ m))
                 = Some (Inr (), cl')"
      by (simp only: eq)
    then obtain s' where "send_all (csock cl) (?pre @ m) = Some (Inr (), s')"
      and "cl' = cl\<lparr>csock := s'\<rparr>" by auto
    then show "wire (csock cl') = wire (csock cl) @ ?pre @ m"
      using send_all_loop_returns [of "csock cl" "?pre @ m" 0 s'] by (simp add: send_all_def)
  }
  {
    assume w: "prefix_size srv = W \<and> conn srv = Some c"
    then show eq: "TCPServer_send srv m
              = map_option (\<lambda>(r, c'). (r, srv\<lparr>conn := Some c'\<rparr>)) (send_all c (?pre @ m))"
      using assms TCPServer_send_conn [of srv c m] by simp
    assume "TCPServer_send srv m = Some (Inr (), srv')"
    then have "map_option (\<lambda>(r, c'). (r, srv\<lparr>conn := Some c'\<rparr>)) (send_all c (?pre @ m))
                 = Some (Inr (), srv')"
      by (simp only: eq)
    then obtain c' where "send_all c (?pre @ m) = Some (Inr (), c')"
      and "srv' = srv\<lparr>conn := Some c'\<rparr>" by auto
    then show "\<exists>c'. conn srv' = Some c' \<and> wire c' = wire c @ ?pre @ m"
      using send_all_loop_returns [of c "?pre @ m" 0 c'] by (simp add: send_all_def)
  }
qed

theorem send_frame_witness:
  "(0::int) \<le> 1 \<and> length [1, 2, 3, 4, 5 :: byte] < 256 ^ nat 1 \<and>
   to_bytes (length [1, 2, 3, 4, 5 :: byte]) 1 = Inr [5] \<and>
   cprefix_size (TCPClient_init ''127.0.0.1'' 50007 None (new_connection [4, 4] [] False)) = 1 \<and>
   TCPClient_send (TCPClient_init ''127.0.0.1'' 50007 None (new_connection [4, 4] [] False))
       [1, 2, 3, 4, 5]
     = Some (Inr (),
         (TCPClient_init ''127.0.0.1'' 50007 None (new_connection [4, 4] [] False))
           \<lparr>csock := (new_connection [] [] False)
               \<lparr>wire := [5, 1, 2, 3, 4, 5],
                send_log := [[5, 1, 2, 3, 4, 5], [4, 5]]\<rparr>\<rparr>) \<and>
   wire (csock ((TCPClient_init ''127.0.0.1'' 50007 None (new_connection [4, 4] [] False))
           \<lparr>csock := (new_connection [] [] False)
               \<lparr>wire := [5, 1, 2, 3, 4, 5],
                send_log := [[5, 1, 2, 3, 4, 5], [4, 5]]\<rparr>\<rparr>))
     = wire (csock (TCPClient_init ''127.0.0.1'' 50007 None (new_connection [4, 4] [] False)))
         @ be_bytes (nat 1) (length [1, 2, 3, 4, 5 :: byte]) @ [1, 2, 3, 4, 5] \<and>
   (prefix_size ((TCPServer_init ''0.0.0.0'' 50007 None None (new_listener True []))
                   \<lparr>conn := Some (new_connection [6] [] False)\<rparr>) = 1 \<and>
    conn ((TCPServer_init ''0.0.0.0'' 50007 None None (new_listener True []))
            \<lparr>conn := Some (new_connection [6] [] False)\<rparr>)
      = Some (new_connection [6] [] False)) \<and>
   TCPServer_send ((TCPServer_init ''0.0.0.0'' 50007 None None (new_listener True []))
                     \<lparr>conn := Some (new_connection [6] [] False)\<rparr>) [1, 2, 3, 4, 5]
     = map_option (\<lambda>(r, c'). (r, (TCPServer_init ''0.0.0.0'' 50007 None None (new_listener True []))
                     \<lparr>conn := Some (new_connection [6] [] False)\<rparr>\<lparr>conn := Some c'\<rparr>))
         (send_all (new_connection [6] [] False)
            (be_bytes (nat 1) (length [1, 2, 3, 4, 5 :: byte]) @ [1, 2, 3, 4, 5]))"
  (is "?Z \<and> ?F \<and> ?T \<and> ?P \<and> ?S \<and> ?W \<and> ?Q \<and> ?V")
proof -
  have z: ?Z by simp
  have f: ?F by simp
  note t = send_frame [OF z f]
  have tb: ?T by (simp add: to_bytes_def)
  have p: ?P by (simp add: TCPClient_init_def)
  have s: ?S
    by (simp add: TCPClient_send_def TCPClient_init_def to_bytes_def send_all_def
          send_all_loop.simps sock_send_def new_connection_def new_socket_def)
  have w: ?W
    by (rule t [THEN conjunct2, THEN conjunct2, THEN conjunct2, THEN conjunct2,
                THEN conjunct1, rule_format, OF p, THEN conjunct2, rule_format, OF s])
  have q: ?Q by (simp add: TCPServer_init_def)
  have v: ?V
    by (rule t [THEN conjunct2, THEN conjunct2, THEN conjunct2, THEN conjunct2,
                THEN conjunct2, rule_format, OF q, THEN conjunct1])
  show ?thesis using z f tb p s w q v by blast
qed

text \<open>
  C1: round trip, for any prefix size \<open>W \<ge> 0\<close> (the widths 1 to 8 among them) and any
  message shorter than \<open>256 ^ W\<close>. When \<open>send(m)\<close> has returned on one endpoint and the
  bytes its transport took during that call are the next bytes to arrive on the peer's
  healthy connection (in any segmentation, followed by any later bytes \<open>rest\<close>), then
  \<open>recv()\<close> on the peer returns exactly \<open>m\<close> and leaves \<open>rest\<close> unread. Stated from
  client to server and from server to client.
\<close>

theorem round_trip:
  assumes "0 \<le> W" and "length m < 256 ^ nat W"
    and "prefix_size srv = W" and "cprefix_size cl = W" and "conn srv = Some c"
  shows "(TCPClient_send cl m = Some (Inr (), cl') \<and> healthy c \<and>
          concat (arriving c) = drop (length (wire (csock cl))) (wire (csock cl')) @ rest
          \<longrightarrow> (\<exists>c'. TCPServer_recv srv = Some (Inr m, srv\<lparr>conn := Some c'\<rparr>) \<and>
                     concat (arriving c') = rest)) \<and>
         (TCPServer_send srv m = Some (Inr (), srv') \<and> conn srv' = Some c' \<and> healthy (csock cl) \<and>
          concat (arriving (csock cl)) = drop (length (wire c)) (wire c') @ rest
          \<longrightarrow> (\<exists>s'. TCPClient_recv cl = Some (Inr m, cl\<lparr>csock := s'\<rparr>) \<and>
                     concat (arriving s') = rest))"
proof (intro conjI impI)
  let ?pre = "be_bytes (nat W) (length m)"
  assume a: "TCPClient_send cl m = Some (Inr (), cl') \<and> healthy c \<and>
          concat (arriving c) = drop (length (wire (csock cl))) (wire (csock cl')) @ rest"
  then obtain s' where s': "send_all (csock cl) (?pre @ m) = Some (Inr (), s')" "cl' = cl\<lparr>csock := s'\<rparr>"
    using TCPClient_send_fits [of cl m] assms(1,2,4) by auto
  from send_all_loop_returns [of "csock cl" "?pre @ m" 0 s'] s'(1)
  have "wire s' = wire (csock cl) @ ?pre @ m" by (simp add: send_all_def)
  with a s'(2) have "concat (arriving c) = ?pre @ m @ rest" by simp
  from recv_frame [OF _ assms(1,2) this] a obtain c1 c2
    where "recv_all c W = Some (Inr ?pre, c1)"
      "recv_all c1 (int (from_bytes ?pre)) = Some (Inr m, c2)" "concat (arriving c2) = rest"
    by blast
  then show "\<exists>c'. TCPServer_recv srv = Some (Inr m, srv\<lparr>conn := Some c'\<rparr>) \<and>
                     concat (arriving c') = rest"
    using assms(3,5) by (intro exI [of _ c2]) (simp add: TCPServer_recv_conn)
next
  let ?pre = "be_bytes (nat W) (length m)"
  assume a: "TCPServer_send srv m = Some (Inr (), srv') \<and> conn srv' = Some c' \<and> healthy (csock cl) \<and>
          concat (arriving (csock cl)) = drop (length (wire c)) (wire c') @ rest"
  then have "send_all c (?pre @ m) = Some (Inr (), c')"
    using TCPServer_send_conn [of srv c m] assms(1,2,3,5) by auto
  from send_all_loop_returns [of c "?pre @ m" 0 c'] this
  have "wire c' = wire c @ ?pre @ m" by (simp add: send_all_def)
  with a have "concat (arriving (csock cl)) = ?pre @ m @ rest" by simp
  from recv_frame [OF _ assms(1,2) this] a obtain c1 c2
    where "recv_all (csock cl) W = Some (Inr ?pre, c1)"
      "recv_all c1 (int (from_bytes ?pre)) = Some (Inr m, c2)" "concat (arriving c2) = rest"
    by blast
  then show "\<exists>s'. TCPClient_recv cl = Some (Inr m, cl\<lparr>csock := s'\<rparr>) \<and>
                     concat (arriving s') = rest"
    using assms(4) by (intro exI [of _ c2]) (simp add: TCPClient_recv_def)
qed

theorem round_trip_witness:
  "(0::int) \<le> 1 \<and> length [1, 2, 3, 4, 5 :: byte] < 256 ^ nat 1 \<and>
   prefix_size ((TCPServer_init ''0.0.0.0'' 50007 None None (new_listener True []))
                  \<lparr>conn := Some (new_connection [6] [[5], [1, 2], [3, 4, 5]] False)\<rparr>) = 1 \<and>
   cprefix_size (TCPClient_init ''127.0.0.1'' 50007 None
                   (new_connection [4, 4] [[5, 1, 2], [3, 4, 5]] False)) = 1 \<and>
   conn ((TCPServer_init ''0.0.0.0'' 50007 None None (new_listener True []))
           \<lparr>conn := Some (new_connection [6] [[5], [1, 2], [3, 4, 5]] False)\<rparr>)
     = Some (new_connection [6] [[5], [1, 2], [3, 4, 5]] False) \<and>
   (TCPClient_send (TCPClient_init ''127.0.0.1'' 50007 None
                      (new_connection [4, 4] [[5, 1, 2], [3, 4, 5]] False)) [1, 2, 3, 4, 5]
      = Some (Inr (), (TCPClient_init ''127.0.0.1'' 50007 None
                        (new_connection [4, 4] [[5, 1, 2], [3, 4, 5]] False))
                \<lparr>csock := (new_connection [] [[5, 1, 2], [3, 4, 5]] False)
                    \<lparr>wire := [5, 1, 2, 3, 4, 5],
                     send_log := [[5, 1, 2, 3, 4, 5], [4, 5]]\<rparr>\<rparr>) \<and>
    healthy (new_connection [6] [[5], [1, 2], [3, 4, 5]] False) \<and>
    concat (arriving (new_connection [6] [[5], [1, 2], [3, 4, 5]] False))
      = drop (length (wire (csock (TCPClient_init ''127.0.0.1'' 50007 None
                        (new_connection [4, 4] [[5, 1, 2], [3, 4, 5]] False)))))
          (wire (csock ((TCPClient_init ''127.0.0.1'' 50007 None
                        (new_connection [4, 4] [[5, 1, 2], [3, 4, 5]] False))
                \<lparr>csock := (new_connection [] [[5, 1, 2], [3, 4, 5]] False)
                    \<lparr>wire := [5, 1, 2, 3, 4, 5],
                     send_log := [[5, 1, 2, 3, 4, 5], [4, 5]]\<rparr>\<rparr>))) @ []) \<and>
   (\<exists>c'. TCPServer_recv ((TCPServer_init ''0.0.0.0'' 50007 None None (new_listener True []))
                  \<lparr>conn := Some (new_connection [6] [[5], [1, 2], [3, 4, 5]] False)\<rparr>)
            = Some (Inr [1, 2, 3, 4, 5],
                (TCPServer_init ''0.0.0.0'' 50007 None None (new_listener True []))
                  \<lparr>conn := Some (new_connection [6] [[5], [1, 2], [3, 4, 5]] False)\<rparr>
                  \<lparr>conn := Some c'\<rparr>) \<and>
          concat (arriving c') = []) \<and>
   (TCPServer_send ((TCPServer_init ''0.0.0.0'' 50007 None None (new_listener True []))
                  \<lparr>conn := Some (new_connection [6] [[5], [1, 2], [3, 4, 5]] False)\<rparr>)
        [1, 2, 3, 4, 5]
      = Some (Inr (), (TCPServer_init ''0.0.0.0'' 50007 None None (new_listener True []))
                  \<lparr>conn := Some ((new_connection [] [[5], [1, 2], [3, 4, 5]] False)
                      \<lparr>wire := [5, 1, 2, 3, 4, 5], send_log := [[5, 1, 2, 3, 4, 5]]\<rparr>)\<rparr>) \<and>
    conn ((TCPServer_init ''0.0.0.0'' 50007 None None (new_listener True []))
                  \<lparr>conn := Some ((new_connection [] [[5], [1, 2], [3, 4, 5]] False)
                      \<lparr>wire := [5, 1, 2, 3, 4, 5], send_log := [[5, 1, 2, 3, 4, 5]]\<rparr>)\<rparr>)
      = Some ((new_connection [] [[5], [1, 2], [3, 4, 5]] False)
                      \<lparr>wire := [5, 1, 2, 3, 4, 5], send_log := [[5, 1, 2, 3, 4, 5]]\<rparr>) \<and>
    healthy (csock (TCPClient_init ''127.0.0.1'' 50007 None
                   (new_connection [4, 4] [[5, 1, 2], [3, 4, 5]] False))) \<and>
    concat (arriving (csock (TCPClient_init ''127.0.0.1'' 50007 None
                   (new_connection [4, 4] [[5, 1, 2], [3, 4, 5]] False))))
      = drop (length (wire (new_connection [6] [[5], [1, 2], [3, 4, 5]] False)))
          (wire ((new_connection [] [[5], [1, 2], [3, 4, 5]] False)
                      \<lparr>wire := [5, 1, 2, 3, 4, 5], send_log := [[5, 1, 2, 3, 4, 5]]\<rparr>)) @ []) \<and>
   (\<exists>s'. TCPClient_recv (TCPClient_init ''127.0.0.1'' 50007 None
                   (new_connection [4, 4] [[5, 1, 2], [3, 4, 5]] False))
            = Some (Inr [1, 2, 3, 4, 5],
                (TCPClient_init ''127.0.0.1'' 50007 None
                   (new_connection [4, 4] [[5, 1, 2], [3, 4, 5]] False))\<lparr>csock := s'\<rparr>) \<and>
          concat (arriving s') = [])"
  (is "?Z \<and> ?F \<and> ?PS \<and> ?PC \<and> ?CN \<and> ?H1 \<and> ?C1 \<and> ?H2 \<and> ?C2")
proof -
  have z: ?Z by simp
  have f: ?F by simp
  have ps: ?PS by (simp add: TCPServer_init_def)
  have pc: ?PC by (simp add: TCPClient_init_def)
  have cn: ?CN by simp
  note t = round_trip [OF z f ps pc cn]
  have h1: ?H1
    by (simp add: TCPClient_send_def TCPClient_init_def to_bytes_def send_all_def
          send_all_loop.simps sock_send_def new_connection_def new_socket_def healthy_def)
  have c1: ?C1 by (rule t [THEN conjunct1, rule_format, OF h1])
  have h2: ?H2
    by (simp add: TCPServer_send_def TCPServer_init_def TCPClient_init_def to_bytes_def
          send_all_conn_def send_all_def send_all_loop.simps sock_send_def new_connection_def
          new_socket_def healthy_def)
  have c2: ?C2 by (rule t [THEN conjunct2, rule_format, OF h2])
  show ?thesis using z f ps pc cn h1 c1 h2 c2 by blast
qed

text \<open>
  C4: the peer closes after the prefix \<open>raw_len\<close> and before the whole payload has
  arrived: only a part of it, shorter than the length that \<open>raw_len\<close> announces, was
  delivered (no byte of it at all in the case of the claim; a prefix that announces an
  empty payload leaves nothing to wait for). Then \<open>recv()\<close> raises the \<open>RuntimeError\<close>
  of a broken connection: it neither blocks nor returns a buffer.
\<close>

theorem recv_broken_after_prefix:
  assumes "0 \<le> W" and "healthy c" and "eof c"
    and "concat (arriving c) = raw_len @ part"
    and "length raw_len = nat W" and "length part < from_bytes raw_len"
  shows "(prefix_size srv = W \<and> conn srv = Some c \<longrightarrow>
            (\<exists>c'. TCPServer_recv srv
               = Some (Inl (RuntimeError ''Socket connection broken during recv''),
                       srv\<lparr>conn := Some c'\<rparr>))) \<and>
         (cprefix_size cl = W \<and> csock cl = c \<longrightarrow>
            (\<exists>c'. TCPClient_recv cl
               = Some (Inl (RuntimeError ''Socket connection broken during recv''),
                       cl\<lparr>csock := c'\<rparr>)))"
proof -
  have "W - 0 \<le> int (length (concat (arriving c)))" using assms(4,5) by simp
  from recv_all_loop_complete [OF assms(2) this, of "[]"] obtain c1
    where r1: "recv_all c W = Some (Inr (take (nat W) (concat (arriving c))), c1)"
      and a1: "concat (arriving c1) = drop (nat W) (concat (arriving c))"
      and h1: "healthy c1" and e1: "eof c1 = eof c"
    by (auto simp: recv_all_def)
  have r1': "recv_all c W = Some (Inr raw_len, c1)" using r1 assms(4,5) by simp
  have "int (length (concat (arriving c1))) < int (from_bytes raw_len) - 0"
    using a1 assms(4,5,6) by simp
  from recv_all_loop_broken [OF h1 _ this, of "[]"] e1 assms(3) obtain c2
    where r2: "recv_all c1 (int (from_bytes raw_len))
               = Some (Inl (RuntimeError ''Socket connection broken during recv''), c2)"
    by (auto simp: recv_all_def)
  show ?thesis
    using r1' r2 by (auto simp: TCPServer_recv_conn TCPClient_recv_def)
qed

theorem recv_broken_after_prefix_witness:
  "(0::int) \<le> 1 \<and> healthy (new_connection [] [[5]] True) \<and> eof (new_connection [] [[5]] True) \<and>
   concat (arriving (new_connection [] [[5]] True)) = [5] @ [] \<and>
   length [5 :: byte] = nat 1 \<and> length ([] :: bytes) < from_bytes [5] \<and>
   (\<exists>c'. TCPServer_recv ((TCPServer_init ''h'' 1 None None (new_listener True []))
                           \<lparr>conn := Some (new_connection [] [[5]] True)\<rparr>)
      = Some (Inl (RuntimeError ''Socket connection broken during recv''),
              (TCPServer_init ''h'' 1 None None (new_listener True []))
                \<lparr>conn := Some (new_connection [] [[5]] True)\<rparr>\<lparr>conn := Some c'\<rparr>)) \<and>
   (\<exists>c'. TCPClient_recv (TCPClient_init ''h'' 1 None (new_connection [] [[5]] True))
      = Some (Inl (RuntimeError ''Socket connection broken during recv''),
              (TCPClient_init ''h'' 1 None (new_connection [] [[5]] True))\<lparr>csock := c'\<rparr>))"
  (is "?Z \<and> ?H \<and> ?E \<and> ?A \<and> ?L \<and> ?P \<and> ?S \<and> ?C")
proof -
  have z: ?Z by simp
  have h: ?H by (simp add: healthy_def new_connection_def new_socket_def)
  have e: ?E by (simp add: new_connection_def new_socket_def)
  have a: ?A by (simp add: new_connection_def new_socket_def)
  have l: ?L by simp
  have p: ?P by (simp add: from_bytes_def)
  note t = recv_broken_after_prefix [OF z h e a l p]
  have s: ?S by (rule t [THEN conjunct1, rule_format]) (simp add: TCPServer_init_def)
  have c: ?C by (rule t [THEN conjunct2, rule_format]) (simp add: TCPClient_init_def)
  show ?thesis using z h e a l p s c by blast
qed


subsection \<open>Life cycle\<close>

text \<open>
  C8 as it is written says that every \<open>send\<close> after \<open>close()\<close> fails with the error
  of a closed channel. On a closed endpoint a message too long for the prefix is
  rejected by \<open>to_bytes\<close> before the socket is touched: \<open>send\<close> raises
  \<open>OverflowError\<close>, not the \<open>OSError\<close> of the closed socket.
\<close>

theorem closed_channel_counterexample:
  "TCPServer_register
     (TCPServer_init ''0.0.0.0'' 50007 None None
        (new_listener True [(new_connection [9] [] False, (''10.0.0.2'', 40000))]))
   = Some (Inr (),
       \<lparr>host = ''0.0.0.0'', port = 50007, backlog = 4, prefix_size = 1,
        sock = \<lparr>l_closed = False, l_bound = True, l_listening = Some 4, addr_free = True,
                queue = [], handed_out = 1\<rparr>,
        conn = Some (new_connection [9] [] False), addr = Some (''10.0.0.2'', 40000)\<rparr>) \<and>
   TCPServer_close
     \<lparr>host = ''0.0.0.0'', port = 50007, backlog = 4, prefix_size = 1,
      sock = \<lparr>l_closed = False, l_bound = True, l_listening = Some 4, addr_free = True,
              queue = [], handed_out = 1\<rparr>,
      conn = Some (new_connection [9] [] False), addr = Some (''10.0.0.2'', 40000)\<rparr>
   = Some (Inr (),
       \<lparr>host = ''0.0.0.0'', port = 50007, backlog = 4, prefix_size = 1,
        sock = \<lparr>l_closed = True, l_bound = True, l_listening = Some 4, addr_free = True,
                queue = [], handed_out = 1\<rparr>,
        conn = Some (sock_close (new_connection [9] [] False)),
        addr = Some (''10.0.0.2'', 40000)\<rparr>) \<and>
   TCPServer_send
     \<lparr>host = ''0.0.0.0'', port = 50007, backlog = 4, prefix_size = 1,
      sock = \<lparr>l_closed = True, l_bound = True, l_listening = Some 4, addr_free = True,
              queue = [], handed_out = 1\<rparr>,
      conn = Some (sock_close (new_connection [9] [] False)),
      addr = Some (''10.0.0.2'', 40000)\<rparr>
     (replicate 256 0)
   = Some (Inl OverflowError,
       \<lparr>host = ''0.0.0.0'', port = 50007, backlog = 4, prefix_size = 1,
        sock = \<lparr>l_closed = True, l_bound = True, l_listening = Some 4, addr_free = True,
                queue = [], handed_out = 1\<rparr>,
        conn = Some (sock_close (new_connection [9] [] False)),
        addr = Some (''10.0.0.2'', 40000)\<rparr>) \<and>
   OverflowError \<noteq> OSError"
  by (simp add: TCPServer_register_def TCPServer_init_def new_listener_def sock_bind_def
        sock_listen_def sock_accept_def TCPServer_close_def listener_close_def
        TCPServer_send_def to_bytes_def)

text \<open>
  C8, as the code has it, for an endpoint that holds a connection and has a prefix of
  1 to 8 bytes. After \<open>close()\<close> the endpoint is closed for good: every later
  call leaves it exactly as it is and none blocks; \<open>recv\<close> raises the \<open>OSError\<close> of
  the closed socket; \<open>send\<close> raises the same \<open>OSError\<close> when the message fits the
  prefix and \<open>OverflowError\<close> when it does not. Nothing is written or read.
\<close>

theorem closed_channel:
  assumes "1 \<le> W" and "W \<le> 8"
  shows "(prefix_size srv = W \<and> conn srv = Some c \<and> TCPServer_close srv = Some (Inr (), srv1) \<longrightarrow>
            TCPServer_run calls srv1 = Some srv1 \<and>
            TCPServer_recv srv1 = Some (Inl OSError, srv1) \<and>
            TCPServer_send srv1 m
              = Some (Inl (if length m < 256 ^ nat W then OSError else OverflowError), srv1)) \<and>
         (cprefix_size cl = W \<and> TCPClient_close cl = Some (Inr (), cl1) \<longrightarrow>
            TCPClient_run calls cl1 = Some cl1 \<and>
            TCPClient_recv cl1 = Some (Inl OSError, cl1) \<and>
            TCPClient_send cl1 m
              = Some (Inl (if length m < 256 ^ nat W then OSError else OverflowError), cl1))"
proof (intro conjI impI)
  assume a: "prefix_size srv = W \<and> conn srv = Some c \<and> TCPServer_close srv = Some (Inr (), srv1)"
  then have s1: "srv1 = srv\<lparr>conn := Some (sock_close c), sock := listener_close (sock srv)\<rparr>"
    by (auto simp: TCPServer_close_def)
  have p: "1 \<le> prefix_size srv1" and cn: "conn srv1 = Some (sock_close c)"
    and cl: "closed (sock_close c)" and lc: "l_closed (sock srv1)"
    using a assms by (simp_all add: s1 sock_close_def listener_close_def)
  show "TCPServer_run calls srv1 = Some srv1" by (rule TCPServer_run_closed [OF p cn cl lc])
  show "TCPServer_recv srv1 = Some (Inl OSError, srv1)" by (rule TCPServer_recv_closed [OF p cn cl])
  show "TCPServer_send srv1 m
          = Some (Inl (if length m < 256 ^ nat W then OSError else OverflowError), srv1)"
    using TCPServer_send_closed [OF p cn cl, of m] a by (simp add: s1)
next
  assume a: "cprefix_size cl = W \<and> TCPClient_close cl = Some (Inr (), cl1)"
  then have s1: "cl1 = cl\<lparr>csock := sock_close (csock cl)\<rparr>"
    by (auto simp: TCPClient_close_def)
  have p: "1 \<le> cprefix_size cl1" and c: "closed (csock cl1)"
    using a assms by (simp_all add: s1 sock_close_def)
  show "TCPClient_run calls cl1 = Some cl1" by (rule TCPClient_run_closed [OF p c])
  show "TCPClient_recv cl1 = Some (Inl OSError, cl1)" by (rule TCPClient_recv_closed [OF p c])
  show "TCPClient_send cl1 m
          = Some (Inl (if length m < 256 ^ nat W then OSError else OverflowError), cl1)"
    using TCPClient_send_closed [OF p c, of m] a by (simp add: s1)
qed

theorem closed_channel_witness:
  "(1::int) \<le> 1 \<and> (1::int) \<le> 8 \<and>
   (prefix_size
      \<lparr>host = ''0.0.0.0'', port = 50007, backlog = 4, prefix_size = 1,
       sock = (new_listener True [])
                \<lparr>l_bound := True, l_listening := Some 4, handed_out := 1\<rparr>,
       conn = Some (new_connection [9] [[1, 7]] False),
       addr = Some (''10.0.0.2'', 40000)\<rparr> = 1 \<and>
    conn
      \<lparr>host = ''0.0.0.0'', port = 50007, backlog = 4, prefix_size = 1,
       sock = (new_listener True [])
                \<lparr>l_bound := True, l_listening := Some 4, handed_out := 1\<rparr>,
       conn = Some (new_connection [9] [[1, 7]] False),
       addr = Some (''10.0.0.2'', 40000)\<rparr> = Some (new_connection [9] [[1, 7]] False) \<and>
    TCPServer_close
      \<lparr>host = ''0.0.0.0'', port = 50007, backlog = 4, prefix_size = 1,
       sock = (new_listener True [])
                \<lparr>l_bound := True, l_listening := Some 4, handed_out := 1\<rparr>,
       conn = Some (new_connection [9] [[1, 7]] False),
       addr = Some (''10.0.0.2'', 40000)\<rparr>
    = Some (Inr (),
        \<lparr>host = ''0.0.0.0'', port = 50007, backlog = 4, prefix_size = 1,
         sock = listener_close ((new_listener True [])
                  \<lparr>l_bound := True, l_listening := Some 4, handed_out := 1\<rparr>),
         conn = Some (sock_close (new_connection [9] [[1, 7]] False)),
         addr = Some (''10.0.0.2'', 40000)\<rparr>)) \<and>
   (TCPServer_run [Recv, Send [1, 2], Register, Close, Recv]
      \<lparr>host = ''0.0.0.0'', port = 50007, backlog = 4, prefix_size = 1,
       sock = listener_close ((new_listener True [])
                \<lparr>l_bound := True, l_listening := Some 4, handed_out := 1\<rparr>),
       conn = Some (sock_close (new_connection [9] [[1, 7]] False)),
       addr = Some (''10.0.0.2'', 40000)\<rparr>
    = Some
       \<lparr>host = ''0.0.0.0'', port = 50007, backlog = 4, prefix_size = 1,
        sock = listener_close ((new_listener True [])
                 \<lparr>l_bound := True, l_listening := Some 4, handed_out := 1\<rparr>),
        conn = Some (sock_close (new_connection [9] [[1, 7]] False)),
        addr = Some (''10.0.0.2'', 40000)\<rparr> \<and>
    TCPServer_recv
      \<lparr>host = ''0.0.0.0'', port = 50007, backlog = 4, prefix_size = 1,
       sock = listener_close ((new_listener True [])
                \<lparr>l_bound := True, l_listening := Some 4, handed_out := 1\<rparr>),
       conn = Some (sock_close (new_connection [9] [[1, 7]] False)),
       addr = Some (''10.0.0.2'', 40000)\<rparr>
    = Some (Inl OSError,
        \<lparr>host = ''0.0.0.0'', port = 50007, backlog = 4, prefix_size = 1,
         sock = listener_close ((new_listener True [])
                  \<lparr>l_bound := True, l_listening := Some 4, handed_out := 1\<rparr>),
         conn = Some (sock_close (new_connection [9] [[1, 7]] False)),
         addr = Some (''10.0.0.2'', 40000)\<rparr>) \<and>
    TCPServer_send
      \<lparr>host = ''0.0.0.0'', port = 50007, backlog = 4, prefix_size = 1,
       sock = listener_close ((new_listener True [])
                \<lparr>l_bound := True, l_listening := Some 4, handed_out := 1\<rparr>),
       conn = Some (sock_close (new_connection [9] [[1, 7]] False)),
       addr = Some (''10.0.0.2'', 40000)\<rparr> [1, 2]
    = Some (Inl (if length [1, 2 :: byte] < 256 ^ nat 1 then OSError else OverflowError),
        \<lparr>host = ''0.0.0.0'', port = 50007, backlog = 4, prefix_size = 1,
         sock = listener_close ((new_listener True [])
                  \<lparr>l_bound := True, l_listening := Some 4, handed_out := 1\<rparr>),
         conn = Some (sock_close (new_connection [9] [[1, 7]] False)),
         addr = Some (''10.0.0.2'', 40000)\<rparr>)) \<and>
   (cprefix_size (TCPClient_init ''127.0.0.1'' 50007 None (new_connection [9] [[1, 7]] False)) = 1 \<and>
    TCPClient_close (TCPClient_init ''127.0.0.1'' 50007 None (new_connection [9] [[1, 7]] False))
    = Some (Inr (),
        \<lparr>chost = ''127.0.0.1'', cport = 50007, cprefix_size = 1,
         csock = sock_close (new_connection [9] [[1, 7]] False)\<rparr>)) \<and>
   (TCPClient_run [Recv, Send [1, 2], Register, Close, Recv]
      \<lparr>chost = ''127.0.0.1'', cport = 50007, cprefix_size = 1,
       csock = sock_close (new_connection [9] [[1, 7]] False)\<rparr>
    = Some
       \<lparr>chost = ''127.0.0.1'', cport = 50007, cprefix_size = 1,
        csock = sock_close (new_connection [9] [[1, 7]] False)\<rparr> \<and>
    TCPClient_recv
      \<lparr>chost = ''127.0.0.1'', cport = 50007, cprefix_size = 1,
       csock = sock_close (new_connection [9] [[1, 7]] False)\<rparr>
    = Some (Inl OSError,
        \<lparr>chost = ''127.0.0.1'', cport = 50007, cprefix_size = 1,
         csock = sock_close (new_connection [9] [[1, 7]] False)\<rparr>) \<and>
    TCPClient_send
      \<lparr>chost = ''127.0.0.1'', cport = 50007, cprefix_size = 1,
       csock = sock_close (new_connection [9] [[1, 7]] False)\<rparr> [1, 2]
    = Some (Inl (if length [1, 2 :: byte] < 256 ^ nat 1 then OSError else OverflowError),
        \<lparr>chost = ''127.0.0.1'', cport = 50007, cprefix_size = 1,
         csock = sock_close (new_connection [9] [[1, 7]] False)\<rparr>))"
  (is "?Z \<and> ?U \<and> ?HS \<and> ?CS \<and> ?HC \<and> ?CC")
proof -
  have z: ?Z by simp
  have u: ?U by simp
  note t = closed_channel [OF z u]
  have hs: ?HS by (simp add: TCPServer_close_def)
  have cs: ?CS by (rule t [THEN conjunct1, rule_format, OF hs])
  have hc: ?HC by (simp add: TCPClient_close_def TCPClient_init_def)
  have cc: ?CC by (rule t [THEN conjunct2, rule_format, OF hc])
  show ?thesis using z u hs cs hc cc by blast
qed

text \<open>
  C9: once \<open>register\<close> has accepted a connection, whatever calls follow and whichever
  peers try to connect: \<open>accept\<close> never hands out a second connection, the peer address
  stays the one accepted, the bytes still to be read on the connection are a rest of
  the stream of the peer accepted (no other peer's bytes reach it), a peer that has
  been queued stays in the queue, and a second \<open>register\<close> raises \<open>OSError\<close> at
  \<open>bind\<close> without reaching \<open>accept\<close>.
\<close>

theorem single_accept:
  assumes "TCPServer_register srv = Some (Inr (), srv1)"
    and "TCPServer_run calls srv1 = Some srv2"
  shows "handed_out (sock srv1) = Suc (handed_out (sock srv)) \<and>
         handed_out (sock srv2) = handed_out (sock srv1) \<and>
         addr srv1 \<noteq> None \<and> addr srv2 = addr srv1 \<and>
         (\<exists>c1 c2 j. conn srv1 = Some c1 \<and> conn srv2 = Some c2 \<and>
                     concat (arriving c2) = drop j (concat (arriving c1))) \<and>
         (\<exists>later. queue (sock srv2) = queue (sock srv1) @ later) \<and>
         TCPServer_register srv2 = Some (Inl OSError, srv2)"
proof -
  note r = TCPServer_register_ok [OF assms(1)]
  from TCPServer_run_bound [OF assms(2) r(1,2)]
  have b: "l_bound (sock srv2)" "conn srv2 \<noteq> None"
    "handed_out (sock srv2) = handed_out (sock srv1)" "addr srv2 = addr srv1"
    "\<exists>later. queue (sock srv2) = queue (sock srv1) @ later"
    by simp_all
  from r(2) obtain c1 where c1: "conn srv1 = Some c1" by auto
  from TCPServer_run_stream [OF assms(2) r(1) c1] c1
  have s: "\<exists>c1 c2 j. conn srv1 = Some c1 \<and> conn srv2 = Some c2 \<and>
                     concat (arriving c2) = drop j (concat (arriving c1))"
    by simp
  have "TCPServer_register srv2 = Some (Inl OSError, srv2)"
    using b(1) by (simp add: TCPServer_register_def sock_bind_def)
  then show ?thesis using r(3,4) b(3,4,5) s by simp
qed

theorem single_accept_witness:
  "TCPServer_register
     (TCPServer_init ''0.0.0.0'' 50007 None None
        (new_listener True [(new_connection [9] [[1, 7]] False, (''10.0.0.2'', 40000)),
                            (new_connection [9] [[1, 8]] False, (''10.0.0.3'', 40001))]))
   = Some (Inr (),
       \<lparr>host = ''0.0.0.0'', port = 50007, backlog = 4, prefix_size = 1,
        sock = \<lparr>l_closed = False, l_bound = True, l_listening = Some 4, addr_free = True,
                queue = [(new_connection [9] [[1, 8]] False, (''10.0.0.3'', 40001))],
                handed_out = 1\<rparr>,
        conn = Some (new_connection [9] [[1, 7]] False),
        addr = Some (''10.0.0.2'', 40000)\<rparr>) \<and>
   TCPServer_run
     [PeerConnects (new_connection [9] [[1, 9]] False, (''10.0.0.4'', 40002)),
      Register, Recv, Send [3], Close,
      PeerConnects (new_connection [9] [[1, 9]] False, (''10.0.0.5'', 40003)), Register]
     \<lparr>host = ''0.0.0.0'', port = 50007, backlog = 4, prefix_size = 1,
      sock = \<lparr>l_closed = False, l_bound = True, l_listening = Some 4, addr_free = True,
              queue = [(new_connection [9] [[1, 8]] False, (''10.0.0.3'', 40001))],
              handed_out = 1\<rparr>,
      conn = Some (new_connection [9] [[1, 7]] False),
      addr = Some (''10.0.0.2'', 40000)\<rparr>
   = Some
       \<lparr>host = ''0.0.0.0'', port = 50007, backlog = 4, prefix_size = 1,
        sock = \<lparr>l_closed = True, l_bound = True, l_listening = Some 4, addr_free = True,
                queue = [(new_connection [9] [[1, 8]] False, (''10.0.0.3'', 40001)),
                         (new_connection [9] [[1, 9]] False, (''10.0.0.4'', 40002))],
                handed_out = 1\<rparr>,
        conn = Some \<lparr>connected = True, closed = True, reachable = True, accepts = [],
                     wire = [1, 3], send_log = [[1, 3]], arriving = [], eof = False,
                     recv_log = [(1, [1]), (1, [7])]\<rparr>,
        addr = Some (''10.0.0.2'', 40000)\<rparr> \<and>
   TCPServer_register
       \<lparr>host = ''0.0.0.0'', port = 50007, backlog = 4, prefix_size = 1,
        sock = \<lparr>l_closed = True, l_bound = True, l_listening = Some 4, addr_free = True,
                queue = [(new_connection [9] [[1, 8]] False, (''10.0.0.3'', 40001)),
                         (new_connection [9] [[1, 9]] False, (''10.0.0.4'', 40002))],
                handed_out = 1\<rparr>,
        conn = Some \<lparr>connected = True, closed = True, reachable = True, accepts = [],
                     wire = [1, 3], send_log = [[1, 3]], arriving = [], eof = False,
                     recv_log = [(1, [1]), (1, [7])]\<rparr>,
        addr = Some (''10.0.0.2'', 40000)\<rparr>
   = Some (Inl OSError,
       \<lparr>host = ''0.0.0.0'', port = 50007, backlog = 4, prefix_size = 1,
        sock = \<lparr>l_closed = True, l_bound = True, l_listening = Some 4, addr_free = True,
                queue = [(new_connection [9] [[1, 8]] False, (''10.0.0.3'', 40001)),
                         (new_connection [9] [[1, 9]] False, (''10.0.0.4'', 40002))],
                handed_out = 1\<rparr>,
        conn = Some \<lparr>connected = True, closed = True, reachable = True, accepts = [],
                     wire = [1, 3], send_log = [[1, 3]], arriving = [], eof = False,
                     recv_log = [(1, [1]), (1, [7])]\<rparr>,
        addr = Some (''10.0.0.2'', 40000)\<rparr>)"
  (is "?R \<and> ?N \<and> ?A")
proof -
  have r: ?R
    by (simp add: TCPServer_register_def TCPServer_init_def new_listener_def sock_bind_def
          sock_listen_def sock_accept_def)
  have n: ?N
    by (simp add: TCPServer_register_def sock_bind_def peer_connects_def
          TCPServer_recv_def recv_all_conn_def recv_all_def recv_all_loop.simps sock_recv_def
          from_bytes_def TCPServer_send_def send_all_conn_def send_all_def
          send_all_loop.simps sock_send_def to_bytes_def TCPServer_close_def sock_close_def
          listener_close_def new_connection_def new_socket_def)
  have a: ?A
    by (rule single_accept [OF r n, THEN conjunct2, THEN conjunct2, THEN conjunct2,
               THEN conjunct2, THEN conjunct2, THEN conjunct2])
  show ?thesis using r n a by blast
qed

end
